theory Spec2Isabelle
  imports Main "HOL-Library.Code_Target_Nat"
begin

chapter \<open>The model\<close>

section \<open>Text: Python strings as lists of code points\<close>

text \<open>
  A Python \<open>str\<close> is a sequence of Unicode code points, so a string is a list of
  natural numbers here and \<open>length\<close> counts what \<open>len\<close> counts. \<open>ascii\<close> turns an
  Isabelle literal into such a list; a character beyond ASCII is written by its code point
  (\<open>[237]\<close> is LATIN SMALL LETTER I WITH ACUTE).

  The tables of the Python runtime (\<open>str.lower\<close>, \<open>str.upper\<close>,
  \<open>unicodedata.normalize\<close>, \<open>unicodedata.combining\<close>, the classes \<open>\w\<close>, \<open>\s\<close>,
  \<open>\d\<close> of \<open>re\<close>) are modelled on the blocks Basic Latin and Latin-1 Supplement
  (U+0000 to U+00FF) and, for combining marks, Combining Diacritical Marks (U+0300 to
  U+036F); \<open>str.isspace\<close> is the complete table. A code point outside these blocks is
  treated as a caseless, non-decomposable symbol.
\<close>

type_synonym ustr = "nat list"

definition ascii :: "string \<Rightarrow> ustr" where
  "ascii s = map of_char s"

definition py_isspace :: "nat \<Rightarrow> bool" where
  "py_isspace c = (c \<in> set [9, 10, 11, 12, 13, 28, 29, 30, 31, 32, 133, 160, 5760,
     8192, 8193, 8194, 8195, 8196, 8197, 8198, 8199, 8200, 8201, 8202,
     8232, 8233, 8239, 8287, 12288])"

text \<open>\<open>s.strip()\<close>: whitespace removed at both ends.\<close>

definition py_strip :: "ustr \<Rightarrow> ustr" where
  "py_strip s = rev (dropWhile py_isspace (rev (dropWhile py_isspace s)))"

definition lower_cp :: "nat \<Rightarrow> nat" where
  "lower_cp c = (if (65 \<le> c \<and> c \<le> 90) \<or> (192 \<le> c \<and> c \<le> 222 \<and> c \<noteq> 215)
     then c + 32 else c)"

definition py_lower :: "ustr \<Rightarrow> ustr" where
  "py_lower s = map lower_cp s"

text \<open>\<open>str.upper\<close> may lengthen the string: sharp s becomes \<open>SS\<close>.\<close>

definition upper_cp :: "nat \<Rightarrow> nat list" where
  "upper_cp c = (if (97 \<le> c \<and> c \<le> 122) \<or> (224 \<le> c \<and> c \<le> 254 \<and> c \<noteq> 247)
     then [c - 32]
     else if c = 181 then [924]
     else if c = 223 then [83, 83]
     else if c = 255 then [376]
     else [c])"

definition py_upper :: "ustr \<Rightarrow> ustr" where
  "py_upper s = concat (map upper_cp s)"

text \<open>
  Canonical decompositions of the Latin-1 letters: base letter and combining mark
  (768 grave, 769 acute, 770 circumflex, 771 tilde, 776 diaeresis, 778 ring, 807 cedilla).
\<close>

definition nfd_upper_table :: "(nat \<times> nat \<times> nat) list" where
  "nfd_upper_table =
    [(192, 65, 768), (193, 65, 769), (194, 65, 770), (195, 65, 771), (196, 65, 776),
     (197, 65, 778), (199, 67, 807), (200, 69, 768), (201, 69, 769), (202, 69, 770),
     (203, 69, 776), (204, 73, 768), (205, 73, 769), (206, 73, 770), (207, 73, 776),
     (209, 78, 771), (210, 79, 768), (211, 79, 769), (212, 79, 770), (213, 79, 771),
     (214, 79, 776), (217, 85, 768), (218, 85, 769), (219, 85, 770), (220, 85, 776),
     (221, 89, 769)]"

definition nfd_table :: "(nat \<times> nat \<times> nat) list" where
  "nfd_table = nfd_upper_table
     @ map (\<lambda>(c, b, m). (c + 32, b + 32, m)) nfd_upper_table
     @ [(255, 121, 776)]"

definition nfd_cp :: "nat \<Rightarrow> nat list" where
  "nfd_cp c = (case map_of nfd_table c of Some (b, m) \<Rightarrow> [b, m] | None \<Rightarrow> [c])"

text \<open>\<open>unicodedata.normalize("NFD", s)\<close>.\<close>

definition py_nfd :: "ustr \<Rightarrow> ustr" where
  "py_nfd s = concat (map nfd_cp s)"

text \<open>\<open>unicodedata.combining(ch)\<close> is non-zero: every mark of the block but U+034F.\<close>

definition py_combining :: "nat \<Rightarrow> bool" where
  "py_combining c = (768 \<le> c \<and> c \<le> 879 \<and> c \<noteq> 847)"

definition is_az09 :: "nat \<Rightarrow> bool" where
  "is_az09 c = ((97 \<le> c \<and> c \<le> 122) \<or> (48 \<le> c \<and> c \<le> 57))"

text \<open>
  \<open>re.sub(r"[^a-z0-9]+", "", s)\<close>: every maximal run of characters outside the class is
  replaced by the empty string, which leaves the characters of the class, in order.
\<close>

definition re_sub_non_az09 :: "ustr \<Rightarrow> ustr" where
  "re_sub_non_az09 s = filter is_az09 s"

text \<open>
  The package \<open>unidecode\<close> transliterates a string code point by code point from a
  fixed table; this is its table for U+0000 to U+00FF (ASCII is kept as it is, the
  C1 controls and the soft hyphen vanish). A code point above U+00FF is outside the
  modelled table and reads as the empty string, the package's answer for a code point
  it has no entry for.
\<close>

definition unidecode_table :: "(nat \<times> ustr) list" where
  "unidecode_table =
    [(160, ascii '' ''), (161, ascii ''!''), (162, ascii ''C/''), (163, ascii ''PS''),
     (164, ascii ''$?''), (165, ascii ''Y=''), (166, ascii ''|''), (167, ascii ''SS''),
     (168, [34]), (169, ascii ''(c)''), (170, ascii ''a''), (171, ascii ''<<''),
     (172, ascii ''!''), (173, []), (174, ascii ''(r)''), (175, ascii ''-''),
     (176, ascii ''deg''), (177, ascii ''+-''), (178, ascii ''2''), (179, ascii ''3''),
     (180, [39]), (181, ascii ''u''), (182, ascii ''P''), (183, ascii ''*''),
     (184, ascii '',''), (185, ascii ''1''), (186, ascii ''o''), (187, ascii ''>>''),
     (188, ascii '' 1/4''), (189, ascii '' 1/2''), (190, ascii '' 3/4''), (191, ascii ''?''),
     (192, ascii ''A''), (193, ascii ''A''), (194, ascii ''A''), (195, ascii ''A''),
     (196, ascii ''A''), (197, ascii ''A''), (198, ascii ''AE''), (199, ascii ''C''),
     (200, ascii ''E''), (201, ascii ''E''), (202, ascii ''E''), (203, ascii ''E''),
     (204, ascii ''I''), (205, ascii ''I''), (206, ascii ''I''), (207, ascii ''I''),
     (208, ascii ''D''), (209, ascii ''N''), (210, ascii ''O''), (211, ascii ''O''),
     (212, ascii ''O''), (213, ascii ''O''), (214, ascii ''O''), (215, ascii ''x''),
     (216, ascii ''O''), (217, ascii ''U''), (218, ascii ''U''), (219, ascii ''U''),
     (220, ascii ''U''), (221, ascii ''Y''), (222, ascii ''Th''), (223, ascii ''ss''),
     (224, ascii ''a''), (225, ascii ''a''), (226, ascii ''a''), (227, ascii ''a''),
     (228, ascii ''a''), (229, ascii ''a''), (230, ascii ''ae''), (231, ascii ''c''),
     (232, ascii ''e''), (233, ascii ''e''), (234, ascii ''e''), (235, ascii ''e''),
     (236, ascii ''i''), (237, ascii ''i''), (238, ascii ''i''), (239, ascii ''i''),
     (240, ascii ''d''), (241, ascii ''n''), (242, ascii ''o''), (243, ascii ''o''),
     (244, ascii ''o''), (245, ascii ''o''), (246, ascii ''o''), (247, ascii ''/''),
     (248, ascii ''o''), (249, ascii ''u''), (250, ascii ''u''), (251, ascii ''u''),
     (252, ascii ''u''), (253, ascii ''y''), (254, ascii ''th''), (255, ascii ''y'')]"

definition unidecode_cp :: "nat \<Rightarrow> ustr" where
  "unidecode_cp c =
     (if c < 128 then [c]
      else case map_of unidecode_table c of Some t \<Rightarrow> t | None \<Rightarrow> [])"

definition unidecode :: "ustr \<Rightarrow> ustr" where
  "unidecode s = concat (map unidecode_cp s)"

text \<open>
  \<open>str.isalnum\<close> on the modelled blocks, and the class \<open>\w\<close> of \<open>re\<close> on a
  \<open>str\<close> pattern: an alphanumeric character or the underscore.
\<close>

definition py_isalnum :: "nat \<Rightarrow> bool" where
  "py_isalnum c = ((48 \<le> c \<and> c \<le> 57) \<or> (65 \<le> c \<and> c \<le> 90) \<or> (97 \<le> c \<and> c \<le> 122)
     \<or> c \<in> set [170, 178, 179, 181, 185, 186, 188, 189, 190]
     \<or> (192 \<le> c \<and> c \<le> 255 \<and> c \<noteq> 215 \<and> c \<noteq> 247))"

definition is_word :: "nat \<Rightarrow> bool" where
  "is_word c = (py_isalnum c \<or> c = 95)"

text \<open>The class \<open>\d\<close>: on the modelled blocks the ten ASCII digits.\<close>

definition is_digit :: "nat \<Rightarrow> bool" where
  "is_digit c = (48 \<le> c \<and> c \<le> 57)"

text \<open>\<open>s.startswith(p)\<close>, \<open>s.endswith(p)\<close>, \<open>sub in s\<close>.\<close>

definition startswith :: "ustr \<Rightarrow> ustr \<Rightarrow> bool" where
  "startswith s p = (take (length p) s = p)"

definition endswith :: "ustr \<Rightarrow> ustr \<Rightarrow> bool" where
  "endswith s p = (length p \<le> length s \<and> drop (length s - length p) s = p)"

fun py_in :: "ustr \<Rightarrow> ustr \<Rightarrow> bool" where
  "py_in sub [] = (sub = [])"
| "py_in sub (c # cs) = (startswith (c # cs) sub \<or> py_in sub cs)"

text \<open>
  \<open>re.findall(r"\d+", s)\<close>: scanning from the left, a digit starts a match that takes
  every digit that follows (the quantifier is greedy); the scan goes on after the match.
\<close>

function findall_digits :: "ustr \<Rightarrow> ustr list" where
  "findall_digits [] = []"
| "findall_digits (c # cs) =
     (if is_digit c
      then (c # takeWhile is_digit cs) # findall_digits (dropWhile is_digit cs)
      else findall_digits cs)"
  by pat_completeness auto
termination
  by (relation "measure length") (auto simp: length_dropWhile_le less_Suc_eq_le)

text \<open>\<open>int(n)\<close> on a string of ASCII digits.\<close>

definition py_int :: "ustr \<Rightarrow> int" where
  "py_int ds = foldl (\<lambda>acc d. 10 * acc + int (d - 48)) 0 ds"

text \<open>
  \<open>re.split(sep + "+", s)\<close> for a character class \<open>sep\<close>: a run of separators
  ends the current piece, any other character extends it; a separator at either end
  leaves an empty piece there.
\<close>

function re_split_runs :: "(nat \<Rightarrow> bool) \<Rightarrow> ustr \<Rightarrow> ustr list" where
  "re_split_runs sep [] = [[]]"
| "re_split_runs sep (c # cs) =
     (if sep c then [] # re_split_runs sep (dropWhile sep cs)
      else (case re_split_runs sep cs of p # ps \<Rightarrow> (c # p) # ps | [] \<Rightarrow> [[c]]))"
  by pat_completeness auto
termination
  by (relation "measure (\<lambda>(sep, s). length s)") (auto simp: length_dropWhile_le less_Suc_eq_le)

text \<open>\<open>s.replace(old, new)\<close>: the occurrences of \<open>old\<close> from the left, not overlapping.\<close>

function py_replace :: "ustr \<Rightarrow> ustr \<Rightarrow> ustr \<Rightarrow> ustr" where
  "py_replace old new [] = (if old = [] then new else [])"
| "py_replace old new (c # cs) =
     (if old = [] then new @ c # py_replace old new cs
      else if startswith (c # cs) old
        then new @ py_replace old new (drop (length old - 1) cs)
      else c # py_replace old new cs)"
  by pat_completeness auto
termination
  by (relation "measure (\<lambda>(old, new, s). length s)") auto

section \<open>Tables: a pandas frame of text cells\<close>

text \<open>
  A frame has its column names and its rows; a row maps a column name to its cell.
  \<open>load_dataframe\<close> fills the missing cells of the status, urgency, responsible,
  comment and date columns with \<open>''\<close> and casts name and id to \<open>str\<close>, and the
  functions below read a cell through \<open>str\<close>: a cell is a string.
\<close>

type_synonym row = "ustr \<rightharpoonup> ustr"

record dataframe =
  columns :: "ustr list"
  rows :: "row list"

datatype py_error = KeyError | AttributeError

text \<open>\<open>row.get(col, '')\<close>.\<close>

definition row_get :: "row \<Rightarrow> ustr \<Rightarrow> ustr" where
  "row_get r col = (case r col of Some v \<Rightarrow> v | None \<Rightarrow> [])"

section \<open>app.py\<close>

subsection \<open>The normalizer\<close>

text \<open>\<open>_normalize_text\<close>: lower case, accents removed, both ends trimmed.\<close>

definition normalize_text :: "ustr \<Rightarrow> ustr" where
  "normalize_text s =
     (if s = [] then []
      else filter (\<lambda>ch. \<not> py_combining ch) (py_nfd (py_lower (py_strip s))))"

text \<open>\<open>norm_key\<close>: the safe key, only a-z and 0-9.\<close>

definition norm_key :: "ustr \<Rightarrow> ustr" where
  "norm_key s = re_sub_non_az09 (normalize_text s)"

definition is_concluido :: "ustr \<Rightarrow> bool" where
  "is_concluido s = (normalize_text s = ascii ''concluido'')"

text \<open>The status label of a finished stage, \<open>Concluido\<close> written with U+00ED.\<close>

definition lit_Concluido :: ustr where
  "lit_Concluido = ascii ''Conclu'' @ [237] @ ascii ''do''"

subsection \<open>Column names\<close>

definition COL_EP :: ustr where
  "COL_EP = ascii ''Epis'' @ [243] @ ascii ''dio''"

definition COL_NAME :: ustr where
  "COL_NAME = ascii ''Nome do perosnagem''"

definition COL_FILE_ID :: ustr where
  "COL_FILE_ID = ascii ''ID do Arquivo''"

definition COL_RIG_LINK :: ustr where
  "COL_RIG_LINK = ascii ''Link para baixar o modelo Rigado''"

definition COL_SYNCSKETCH :: ustr where
  "COL_SYNCSKETCH = ascii ''Link do SyncSketch''"

definition COL_CONCEPT_LINK :: ustr where
  "COL_CONCEPT_LINK = ascii ''Link para baixar o modelo Ceoncept vetorizado''"

definition COL_URG_CONCEPT :: ustr where
  "COL_URG_CONCEPT = ascii ''URG'' @ [202] @ ascii ''NCIA''"

definition COL_STATUS_CONCEPT :: ustr where
  "COL_STATUS_CONCEPT = ascii ''Status do Concept''"

definition COL_RESP_CONCEPT :: ustr where
  "COL_RESP_CONCEPT = ascii ''Respons'' @ [225] @ ascii ''vel''"

definition COL_URG_RIG :: ustr where
  "COL_URG_RIG = ascii ''URG'' @ [202] @ ascii ''NCIA.1''"

definition COL_STATUS_RIG :: ustr where
  "COL_STATUS_RIG = ascii ''Status do Rig''"

definition COL_RESP_RIG :: ustr where
  "COL_RESP_RIG = ascii ''Respond'' @ [225] @ ascii ''vel''"

definition COL_COMMENTS :: ustr where
  "COL_COMMENTS = ascii ''COMENT'' @ [193] @ ascii ''RIOS''"

definition COL_DATE_CONCEPT :: ustr where
  "COL_DATE_CONCEPT = ascii ''Entrega Concept''"

definition COL_DATE_RIG :: ustr where
  "COL_DATE_RIG = ascii ''Entrega Rig''"

subsection \<open>Episodes\<close>

text \<open>
  An element of a parsed episode list is an \<open>int\<close> or the string \<open>'Todos'\<close>, the
  wildcard for all episodes.
\<close>

datatype ep = EpInt int | EpStr ustr

definition parse_episode_field :: "ustr \<Rightarrow> ep list" where
  "parse_episode_field ep_field =
     (if ep_field = [] then []
      else let t = py_strip ep_field in
        if t = [] then []
        else if py_lower t = ascii ''todos'' then [EpStr (ascii ''Todos'')]
        else map (\<lambda>n. EpInt (py_int n)) (findall_digits t))"

text \<open>
  \<open>detect_all_numeric_episodes\<close>: \<open>df.get(COL_EP, []).tolist()\<close> is the episode column;
  on a frame without it the default \<open>[]\<close> has no \<open>tolist\<close>. The set \<open>eps\<close> and
  \<open>sorted(eps)\<close> are the distinct numbers in increasing order.
\<close>

text \<open>The elements \<open>p\<close> of a parsed list with \<open>isinstance(p, int)\<close>.\<close>

definition int_episodes :: "ep list \<Rightarrow> int list" where
  "int_episodes ps = concat (map (\<lambda>p. case p of EpInt n \<Rightarrow> [n] | EpStr t \<Rightarrow> []) ps)"

definition detect_all_numeric_episodes :: "dataframe \<Rightarrow> py_error + int list" where
  "detect_all_numeric_episodes df =
     (if COL_EP \<notin> set (columns df) then Inl AttributeError
      else Inr (sort (remdups (concat
        (map (\<lambda>r. int_episodes (parse_episode_field (row_get r COL_EP))) (rows df))))))"

text \<open>
  \<open>build_base_exp\<close>. The cell of \<open>__EP_LIST__\<close> after \<open>explode\<close> is an element of the
  list, or NaN for a row whose list was empty.
\<close>

datatype ep_cell = Elem ep | NaN

record exp_row =
  src :: row
  ep_list :: ep_cell
  name_norm_col :: ustr
  id_norm_col :: ustr
  ok_c :: bool
  ok_r :: bool
  ok_both :: bool

text \<open>
  \<open>_expand\<close>: a list that holds a string equal to \<open>todos\<close> in lower case becomes
  \<open>all_eps\<close>. It is applied only when \<open>all_eps\<close> is not empty.
\<close>

definition is_todos :: "ep \<Rightarrow> bool" where
  "is_todos x = (case x of EpStr t \<Rightarrow> py_lower t = ascii ''todos'' | EpInt n \<Rightarrow> False)"

definition expand :: "int list \<Rightarrow> ep list \<Rightarrow> ep list" where
  "expand all_eps lst = (if list_ex is_todos lst then map EpInt all_eps else lst)"

text \<open>
  \<open>DataFrame.explode\<close> on the list of one row, then the filter
  \<open>isinstance(x, int)\<close> on the cells.
\<close>

definition explode :: "ep list \<Rightarrow> ep_cell list" where
  "explode lst = (if lst = [] then [NaN] else map Elem lst)"

definition is_int_cell :: "ep_cell \<Rightarrow> bool" where
  "is_int_cell x = (case x of Elem (EpInt n) \<Rightarrow> True | _ \<Rightarrow> False)"

text \<open>
  The derived columns: the search keys of name and id
  (\<open>''.join(ch for ch in unidecode(s.lower()) if ch.isalnum())\<close>) and the completion
  flags of the two stages; a status column that the frame lacks is created with \<open>''\<close>.
\<close>

definition search_key :: "ustr \<Rightarrow> ustr" where
  "search_key s = filter py_isalnum (unidecode (py_lower s))"

definition make_exp_row :: "row \<Rightarrow> ep_cell \<Rightarrow> exp_row" where
  "make_exp_row r c =
     \<lparr> src = r, ep_list = c,
       name_norm_col = search_key (row_get r COL_NAME),
       id_norm_col = search_key (row_get r COL_FILE_ID),
       ok_c = is_concluido (row_get r COL_STATUS_CONCEPT),
       ok_r = is_concluido (row_get r COL_STATUS_RIG),
       ok_both = (is_concluido (row_get r COL_STATUS_CONCEPT)
                  \<and> is_concluido (row_get r COL_STATUS_RIG)) \<rparr>"

text \<open>The rows one record contributes: its exploded list, the integer cells kept.\<close>

definition explode_record :: "int list \<Rightarrow> row \<Rightarrow> exp_row list" where
  "explode_record all_eps r =
     (let lst = parse_episode_field (row_get r COL_EP);
          lst' = (if all_eps \<noteq> [] then expand all_eps lst else lst)
      in map (make_exp_row r) (filter is_int_cell (explode lst')))"

text \<open>
  \<open>base[COL_EP]\<close>, \<open>base[COL_NAME]\<close> and \<open>base[COL_FILE_ID]\<close> raise \<open>KeyError\<close>
  on a frame without the column. On a frame without rows the selection
  \<open>base[base['__EP_LIST__'].apply(...)]\<close> is made with an empty series that is not
  a boolean mask: it selects an empty list of columns, the frame loses every column, and
  \<open>base[COL_NAME]\<close> raises \<open>KeyError\<close> as well.
\<close>

definition build_base_exp :: "dataframe \<Rightarrow> int list \<Rightarrow> py_error + exp_row list" where
  "build_base_exp df all_eps =
     (if COL_EP \<notin> set (columns df) then Inl KeyError
      else if rows df = [] then Inl KeyError
      else if COL_NAME \<notin> set (columns df) \<or> COL_FILE_ID \<notin> set (columns df)
      then Inl KeyError
      else Inr (concat (map (explode_record all_eps) (rows df))))"

text \<open>The two calls of the page: the universe of the frame, then the explosion with it.\<close>

definition base_exp_of :: "dataframe \<Rightarrow> py_error + exp_row list" where
  "base_exp_of df =
     (case detect_all_numeric_episodes df of
        Inl e \<Rightarrow> Inl e
      | Inr all_eps \<Rightarrow> build_base_exp df all_eps)"

subsection \<open>The image index and the resolver\<close>

text \<open>
  A \<open>dict\<close> keeps its keys in insertion order, and the resolver iterates over
  \<open>img_idx.items()\<close>: the index is an association list.
\<close>

type_synonym image_index = "(ustr \<times> ustr) list"

text \<open>\<open>d.get(key, "")\<close>.\<close>

definition dict_get :: "image_index \<Rightarrow> ustr \<Rightarrow> ustr" where
  "dict_get d key = (case map_of d key of Some v \<Rightarrow> v | None \<Rightarrow> [])"

text \<open>
  A file of the image folder: the text of the folder with its separator, \<open>p.stem\<close>
  and \<open>p.suffix\<close>. The name of the file is \<open>p.stem + p.suffix\<close>, and \<open>str(p)\<close>
  is the folder followed by the name.
\<close>

record img_file =
  parent :: ustr
  stem :: ustr
  suffix :: ustr

definition path_str :: "img_file \<Rightarrow> ustr" where
  "path_str p = parent p @ stem p @ suffix p"

definition image_suffixes :: "ustr list" where
  "image_suffixes = map ascii [''.png'', ''.jpg'', ''.jpeg'', ''.webp'', ''.gif'']"

fun index_images_loop :: "image_index \<Rightarrow> img_file list \<Rightarrow> image_index" where
  "index_images_loop idx [] = idx"
| "index_images_loop idx (p # ps) =
     (if py_lower (suffix p) \<notin> set image_suffixes then index_images_loop idx ps
      else if \<not> startswith (py_upper (stem p)) (ascii ''SVB_'') then index_images_loop idx ps
      else let key = norm_key (stem p) in
        if key \<noteq> [] \<and> map_of idx key = None
        then index_images_loop (idx @ [(key, path_str p)]) ps
        else index_images_loop idx ps)"

text \<open>\<open>index_images\<close>; \<open>None\<close> is a path that is not a directory.\<close>

definition index_images :: "img_file list option \<Rightarrow> image_index" where
  "index_images img_dir =
     (case img_dir of None \<Rightarrow> [] | Some files \<Rightarrow> index_images_loop [] files)"

definition try_match :: "image_index \<Rightarrow> ustr \<Rightarrow> ustr" where
  "try_match img_idx candidate_id = dict_get img_idx (norm_key candidate_id)"

text \<open>
  \<open>re.sub(r'\b(de|da|do|e|com|para|em|na|no)\b', '', s)\<close>. Every alternative begins and
  ends with a letter, so the first \<open>\b\<close> holds where the text starts or follows a
  character that is not a word character, and the second where the text ends or a
  character that is not a word character follows. At a position the alternatives are
  tried in the order written.
\<close>

definition connectors :: "ustr list" where
  "connectors = map ascii [''de'', ''da'', ''do'', ''e'', ''com'', ''para'', ''em'', ''na'', ''no'']"

fun match_alt :: "ustr list \<Rightarrow> ustr \<Rightarrow> ustr option" where
  "match_alt [] s = None"
| "match_alt (a # as) s =
     (if startswith s a \<and> (case drop (length a) s of [] \<Rightarrow> True | c # cs \<Rightarrow> \<not> is_word c)
      then Some a else match_alt as s)"

text \<open>
  The scan: \<open>pw\<close> tells whether the character before is a word character, \<open>k\<close>
  counts the characters of a matched connector still to be dropped.
\<close>

fun sub_connectors :: "bool \<Rightarrow> nat \<Rightarrow> ustr \<Rightarrow> ustr" where
  "sub_connectors pw k [] = []"
| "sub_connectors pw (Suc k) (c # cs) = sub_connectors True k cs"
| "sub_connectors pw 0 (c # cs) =
     (if pw then c # sub_connectors (is_word c) 0 cs
      else case match_alt connectors (c # cs) of
             Some a \<Rightarrow> sub_connectors True (length a - 1) cs
           | None \<Rightarrow> c # sub_connectors (is_word c) 0 cs)"

definition special_cases :: "(ustr \<times> ustr list) list" where
  "special_cases =
    [(ascii ''tia_rebimboca_de_mochila'',
        map ascii [''tia_rebimboca'', ''rebimboca'', ''rebi_mochila'']),
     (ascii ''tia_rebimboca'', map ascii [''rebimboca'', ''rebi'']),
     (ascii ''pepe_pescador'', map ascii [''pepe_pescador'', ''pepe'']),
     (ascii ''seu_tonho'', map ascii [''seutonho'']),
     (ascii ''xico_apicultor'', map ascii [''xico_apicultor'', ''xico'']),
     (ascii ''xico_rio'', map ascii [''xico_rio'', ''xico''])]"

definition is_us_or_space :: "nat \<Rightarrow> bool" where
  "is_us_or_space c = (c = 95 \<or> py_isspace c)"

text \<open>\<open>words\<close>: the pieces of the name key of length 3 or more.\<close>

definition name_words :: "ustr \<Rightarrow> ustr list" where
  "name_words name_norm = filter (\<lambda>w. 3 \<le> length w) (re_split_runs is_us_or_space name_norm)"

definition name_variants :: "ustr \<Rightarrow> ustr list" where
  "name_variants name =
     (let name_norm = norm_key name;
          name_clean = sub_connectors False 0 (py_lower name);
          name_clean_norm = norm_key name_clean;
          words = name_words name_norm
      in [name_norm]
         @ (if name_clean_norm \<noteq> name_norm then [name_clean_norm] else [])
         @ (case map_of special_cases name_clean_norm of Some vs \<Rightarrow> vs | None \<Rightarrow> [])
         @ (case words of w0 # w1 # ws \<Rightarrow> [w0 @ ascii ''_'' @ w1] | _ \<Rightarrow> [])
         @ (case words of w0 # ws \<Rightarrow> [w0] | [] \<Rightarrow> []))"

text \<open>The part of an index key that the name is compared with.\<close>

definition file_name_parts :: "ustr \<Rightarrow> ustr" where
  "file_name_parts idx_key =
     py_replace (ascii ''svb_'') []
       (py_replace (ascii ''svb_per_'') []
         (py_replace (ascii ''svb_rig_'') [] idx_key))"

text \<open>
  The nested statements \<open>for variant in ...: for idx_key, path in img_idx.items(): if ...: return path\<close>.
  \<open>Some p\<close> is a \<open>return p\<close> (whatever \<open>p\<close> is), \<open>None\<close> a loop that ran to its end.
\<close>

fun scan_index :: "(ustr \<Rightarrow> bool) \<Rightarrow> image_index \<Rightarrow> ustr option" where
  "scan_index test [] = None"
| "scan_index test ((idx_key, p) # rest) =
     (if test idx_key then Some p else scan_index test rest)"

fun scan_variants :: "(ustr \<Rightarrow> ustr \<Rightarrow> bool) \<Rightarrow> ustr list \<Rightarrow> image_index \<Rightarrow> ustr option" where
  "scan_variants test [] img_idx = None"
| "scan_variants test (v # vs) img_idx =
     (case scan_index (test v) img_idx of
        Some p \<Rightarrow> Some p
      | None \<Rightarrow> scan_variants test vs img_idx)"

definition exact_test :: "ustr \<Rightarrow> ustr \<Rightarrow> bool" where
  "exact_test variant idx_key = (variant = file_name_parts idx_key)"

definition partial_test :: "ustr \<Rightarrow> ustr \<Rightarrow> bool" where
  "partial_test variant idx_key =
     ((py_in variant (file_name_parts idx_key) \<and> 4 \<le> length variant)
      \<or> (py_in (file_name_parts idx_key) variant \<and> 4 \<le> length (file_name_parts idx_key)))"

definition part_test :: "ustr \<Rightarrow> ustr \<Rightarrow> bool" where
  "part_test part idx_key = py_in part idx_key"

text \<open>Strategies 1 and 2: the id as it is, then its RIG, PER and bare variants.\<close>

definition first_nonempty :: "ustr \<Rightarrow> ustr \<Rightarrow> ustr" where
  "first_nonempty a b = (if a \<noteq> [] then a else b)"

definition id_strategies :: "image_index \<Rightarrow> ustr \<Rightarrow> ustr" where
  "id_strategies img_idx fid =
     (if fid \<noteq> [] \<and> startswith (py_upper fid) (ascii ''SVB_'') then
        first_nonempty (try_match img_idx fid)
          (let up = py_upper fid in
           if startswith up (ascii ''SVB_RIG_'') then
             first_nonempty (try_match img_idx (ascii ''SVB_PER_'' @ drop 8 fid))
               (try_match img_idx (ascii ''SVB_'' @ drop 8 fid))
           else if startswith up (ascii ''SVB_PER_'') then
             first_nonempty (try_match img_idx (ascii ''SVB_RIG_'' @ drop 8 fid))
               (try_match img_idx (ascii ''SVB_'' @ drop 8 fid))
           else if startswith up (ascii ''SVB_'') then
             first_nonempty (try_match img_idx (ascii ''SVB_RIG_'' @ drop 4 fid))
               (try_match img_idx (ascii ''SVB_PER_'' @ drop 4 fid))
           else [])
      else [])"

text \<open>Strategies 3 to 5, on a name that is not empty.\<close>

definition exact_step :: "image_index \<Rightarrow> ustr \<Rightarrow> ustr option" where
  "exact_step img_idx name = scan_variants exact_test (name_variants name) img_idx"

definition name_strategies :: "image_index \<Rightarrow> ustr \<Rightarrow> ustr" where
  "name_strategies img_idx name =
     (case exact_step img_idx name of
        Some p \<Rightarrow> p
      | None \<Rightarrow>
         (case scan_variants partial_test (name_variants name) img_idx of
            Some p \<Rightarrow> p
          | None \<Rightarrow>
             (case scan_variants part_test
                     (filter (\<lambda>part. 4 \<le> length part) (name_words (norm_key name))) img_idx of
                Some p \<Rightarrow> p
              | None \<Rightarrow> [])))"

definition find_image_for :: "image_index \<Rightarrow> ustr \<Rightarrow> ustr \<Rightarrow> ustr" where
  "find_image_for img_idx file_id name =
     (let fid = py_strip file_id; name' = py_strip name in
      first_nonempty (id_strategies img_idx fid)
        (if name' \<noteq> [] then name_strategies img_idx name' else []))"

subsection \<open>Reconciling the column headers\<close>

text \<open>
  \<open>_rename_headers_for_schema\<close>, the chain of \<open>if\<close>/\<open>elif\<close> on the safe key of a
  header without its \<open>.1\<close> suffix: \<open>Some t\<close> is an entry \<open>ren[raw] = t\<close>, \<open>None\<close> a
  header that no branch takes.
\<close>

definition header_target :: "ustr \<Rightarrow> ustr option" where
  "header_target raw =
     (let has_suffix = endswith raw (ascii ''.1'');
          base = (if has_suffix then take (length raw - 2) raw else raw);
          nk = norm_key base
      in if nk \<in> set (map ascii [''episodio'', ''episodios'', ''eps'']) then Some COL_EP
         else if nk \<in> set (map ascii [''nome'', ''nomedoperosnagem'', ''nomepersonagem'',
                   ''nomedopersonagem'']) then Some COL_NAME
         else if nk \<in> set (map ascii [''id'', ''iddoarquivo'', ''iddoarquivo''])
           then Some COL_FILE_ID
         else if nk \<in> set (map ascii [''linkrig'', ''linkdorig'',
                   ''linkparabaixaromodelorigado'']) then Some COL_RIG_LINK
         else if nk \<in> set (map ascii [''syncsketch'', ''syncsketch'']) then Some COL_SYNCSKETCH
         else if nk \<in> set (map ascii [''linksconcept'', ''linkconcept'', ''linkdoconcept'',
                   ''linkparabaixaromodeloceonceptvetorizado'']) then Some COL_CONCEPT_LINK
         else if nk \<in> set (map ascii [''statusrig'']) then Some COL_STATUS_RIG
         else if nk \<in> set (map ascii [''statusconcept'', ''vetorizacao''])
           then Some COL_STATUS_CONCEPT
         else if nk \<in> set (map ascii [''modelsheet'', ''modelsheet'']) then Some raw
         else if nk \<in> set (map ascii [''responsavel'', ''respondavel''])
           then Some (if has_suffix then COL_RESP_CONCEPT else COL_RESP_RIG)
         else if nk \<in> set (map ascii [''entrega''])
           then Some (if has_suffix then COL_DATE_CONCEPT else COL_DATE_RIG)
         else if nk \<in> set (map ascii [''comentarios'', ''comentario'']) then Some COL_COMMENTS
         else None)"

text \<open>The dictionary \<open>ren\<close> built by the loop over the columns.\<close>

fun build_ren :: "(ustr \<rightharpoonup> ustr) \<Rightarrow> ustr list \<Rightarrow> (ustr \<rightharpoonup> ustr)" where
  "build_ren ren [] = ren"
| "build_ren ren (col # cols) =
     (case header_target col of
        Some t \<Rightarrow> build_ren (ren(col \<mapsto> t)) cols
      | None \<Rightarrow> build_ren ren cols)"

text \<open>\<open>df_in.rename(columns=ren)\<close> on the column names (the cells are not touched).\<close>

definition rename_headers_for_schema :: "ustr list \<Rightarrow> ustr list" where
  "rename_headers_for_schema cols =
     (let ren = build_ren Map.empty cols
      in map (\<lambda>c. case ren c of Some t \<Rightarrow> t | None \<Rightarrow> c) cols)"

text \<open>The fifteen column names of the internal schema, in the order app.py declares them.\<close>

definition canonical_headers :: "ustr list" where
  "canonical_headers =
     [COL_EP, COL_NAME, COL_FILE_ID, COL_RIG_LINK, COL_SYNCSKETCH, COL_CONCEPT_LINK,
      COL_URG_CONCEPT, COL_STATUS_CONCEPT, COL_RESP_CONCEPT, COL_URG_RIG, COL_STATUS_RIG,
      COL_RESP_RIG, COL_COMMENTS, COL_DATE_CONCEPT, COL_DATE_RIG]"

section \<open>stats.py\<close>

text \<open>\<open>_norm_key\<close> of stats.py, on a cell that is a string.\<close>

definition stats_norm_key :: "ustr \<Rightarrow> ustr" where
  "stats_norm_key s =
     re_sub_non_az09 (filter (\<lambda>ch. \<not> py_combining ch) (py_nfd (py_lower (py_strip s))))"

text \<open>
  \<open>id_col and id_col in df.columns\<close>: the optional column name is given, neither
  \<open>None\<close> nor \<open>''\<close>, and names a column of the frame.
\<close>

definition col_present :: "ustr option \<Rightarrow> dataframe \<Rightarrow> bool" where
  "col_present c df =
     (case c of None \<Rightarrow> False | Some s \<Rightarrow> s \<noteq> [] \<and> s \<in> set (columns df))"

text \<open>\<open>_norm_key(row.get(col, '')) if col else ''\<close>.\<close>

definition col_key :: "ustr option \<Rightarrow> row \<Rightarrow> ustr" where
  "col_key c r = (case c of None \<Rightarrow> [] | Some s \<Rightarrow> if s = [] then [] else stats_norm_key (row_get r s))"

text \<open>The key of a row: \<open>kid or knm\<close>.\<close>

definition uniq_key :: "ustr option \<Rightarrow> ustr option \<Rightarrow> row \<Rightarrow> ustr" where
  "uniq_key id_col name_col r =
     (let kid = col_key id_col r; knm = col_key name_col r
      in if kid \<noteq> [] then kid else knm)"

text \<open>\<open>drop_duplicates(subset='__UNIQ__')\<close>: the first row of every key is kept.\<close>

fun drop_duplicates :: "('r \<Rightarrow> ustr) \<Rightarrow> ustr list \<Rightarrow> 'r list \<Rightarrow> 'r list" where
  "drop_duplicates key seen [] = []"
| "drop_duplicates key seen (r # rs) =
     (if key r \<in> set seen then drop_duplicates key seen rs
      else r # drop_duplicates key (key r # seen) rs)"

text \<open>
  \<open>dfx['__UNIQ__'] = keys\<close>: every row gets its key in the helper column, which is a
  new last column unless the frame already had one of that name.
\<close>

definition COL_UNIQ :: ustr where
  "COL_UNIQ = ascii ''__UNIQ__''"

definition with_uniq :: "ustr option \<Rightarrow> ustr option \<Rightarrow> row \<Rightarrow> row" where
  "with_uniq id_col name_col r = r(COL_UNIQ \<mapsto> uniq_key id_col name_col r)"

text \<open>
  \<open>_dedup_df\<close>: the copy with the helper column, deduplicated on it; the frame itself
  when neither column is given and present.
\<close>

definition dedup_df :: "dataframe \<Rightarrow> ustr option \<Rightarrow> ustr option \<Rightarrow> dataframe" where
  "dedup_df df id_col name_col =
     (if col_present id_col df \<or> col_present name_col df
      then \<lparr> columns = (if COL_UNIQ \<in> set (columns df) then columns df
                        else columns df @ [COL_UNIQ]),
             rows = drop_duplicates (\<lambda>r. row_get r COL_UNIQ) []
                      (map (with_uniq id_col name_col) (rows df)) \<rparr>
      else df)"

text \<open>
  \<open>overall_stats\<close>: the four counts of its result. The three percentages are floating
  point quotients of these counts and are left out. The status columns are looked up in
  the columns of the deduplicated copy, the helper column \<open>__UNIQ__\<close> among them.
\<close>

record stats =
  total :: nat
  concept_done :: nat
  rig_done :: nat
  both_done :: nat

definition count_rows :: "(row \<Rightarrow> bool) \<Rightarrow> row list \<Rightarrow> nat" where
  "count_rows P rs = length (filter P rs)"

definition overall_stats ::
  "dataframe \<Rightarrow> ustr \<Rightarrow> ustr \<Rightarrow> (ustr \<Rightarrow> bool) \<Rightarrow> ustr option \<Rightarrow> ustr option \<Rightarrow> stats" where
  "overall_stats df col_status_conc col_status_rig is_conc id_col name_col =
     (let dfx = dedup_df df id_col name_col;
          has_c = col_status_conc \<in> set (columns dfx);
          has_r = col_status_rig \<in> set (columns dfx)
      in \<lparr> total = length (rows dfx),
           concept_done =
             (if has_c then count_rows (\<lambda>r. is_conc (row_get r col_status_conc)) (rows dfx)
              else 0),
           rig_done =
             (if has_r then count_rows (\<lambda>r. is_conc (row_get r col_status_rig)) (rows dfx)
              else 0),
           both_done =
             (if has_c \<and> has_r
              then count_rows (\<lambda>r. is_conc (row_get r col_status_conc)
                                  \<and> is_conc (row_get r col_status_rig)) (rows dfx)
              else 0) \<rparr>)"

section \<open>list_tab.py\<close>

text \<open>\<open>_norm\<close>: the safe key of the list view, with \<open>unidecode\<close> for the accents.\<close>

definition norm_lt :: "ustr \<Rightarrow> ustr" where
  "norm_lt s = re_sub_non_az09 (unidecode (py_lower (py_strip s)))"

text \<open>\<open>any(k in ns for k in ks)\<close>.\<close>

definition any_in :: "ustr list \<Rightarrow> ustr \<Rightarrow> bool" where
  "any_in ks ns = list_ex (\<lambda>k. py_in k ns) ks"

definition review_keys :: "ustr list" where
  "review_keys = map ascii [''revisao'', ''analise'', ''pendentederevisao'', ''pendentedeanalise'']"

definition wip_keys :: "ustr list" where
  "wip_keys = map ascii [''emproducao'', ''emandamento'', ''producao'', ''progresso'']"

definition todo_keys :: "ustr list" where
  "todo_keys = map ascii [''naoiniciado'', ''naoiniciada'', ''nao_iniciado'']"

definition status_kind :: "ustr \<Rightarrow> ustr" where
  "status_kind s =
     (let ns = norm_lt s in
      if py_in (ascii ''concluido'') ns then ascii ''done''
      else if any_in review_keys ns then ascii ''review''
      else if any_in wip_keys ns then ascii ''wip''
      else if any_in todo_keys ns then ascii ''todo''
      else ascii ''other'')"

text \<open>
  \<open>_SVB_ID_RE = \b(?:SVB|RIG|PER)_([A-Za-z0-9]+)\b\<close>, case ignored. \<open>search\<close> tries the
  positions from the left. At a position the prefix must follow the start of the text or
  a character that is not a word character; the group takes every letter and digit that
  follows (at least one), and the last \<open>\b\<close> then asks that the text ends or goes on
  with a character that is not a word character. A shorter group would be followed by a
  letter or digit, where \<open>\b\<close> fails, so backtracking finds nothing more.
  The result is \<open>m.group(1)\<close>.
\<close>

definition is_alnum_ascii :: "nat \<Rightarrow> bool" where
  "is_alnum_ascii c = ((48 \<le> c \<and> c \<le> 57) \<or> (65 \<le> c \<and> c \<le> 90) \<or> (97 \<le> c \<and> c \<le> 122))"

definition svb_match_here :: "ustr \<Rightarrow> ustr option" where
  "svb_match_here s =
     (if py_lower (take 3 s) \<in> set (map ascii [''svb'', ''rig'', ''per''])
         \<and> length s > 3 \<and> s ! 3 = 95
      then (let grp = takeWhile is_alnum_ascii (drop 4 s);
                after = dropWhile is_alnum_ascii (drop 4 s)
            in if grp \<noteq> [] \<and> (case after of [] \<Rightarrow> True | c # cs \<Rightarrow> \<not> is_word c)
               then Some grp else None)
      else None)"

fun svb_search :: "bool \<Rightarrow> ustr \<Rightarrow> ustr option" where
  "svb_search pw [] = None"
| "svb_search pw (c # cs) =
     (if pw then svb_search (is_word c) cs
      else case svb_match_here (c # cs) of
             Some grp \<Rightarrow> Some grp
           | None \<Rightarrow> svb_search (is_word c) cs)"

text \<open>\<open>_extract_svb_id\<close> on one text.\<close>

definition extract_svb_id :: "ustr \<Rightarrow> ustr" where
  "extract_svb_id t =
     (if t = [] then []
      else case svb_search False t of
             Some grp \<Rightarrow> ascii ''SVB_'' @ py_upper grp
           | None \<Rightarrow> [])"

definition std_svb_id :: "ustr \<Rightarrow> ustr" where
  "std_svb_id s =
     (case svb_search False s of
        Some grp \<Rightarrow> ascii ''SVB_'' @ py_upper grp
      | None \<Rightarrow> s)"

text \<open>
  The best id of a group in \<open>render_list_tab\<close>: \<open>pid\<close> and \<open>nome\<close> are the keys of the
  group, the three lists its cells of \<open>link\<close>, \<open>sync\<close> and \<open>comentarios\<close>, sorted as
  \<open>gs\<close> is.
\<close>

definition nonblank :: "ustr \<Rightarrow> bool" where
  "nonblank s = (py_strip s \<noteq> [])"

definition clean_name_char :: "nat \<Rightarrow> nat" where
  "clean_name_char c = (if is_alnum_ascii c \<or> c = 95 then c else 95)"

text \<open>\<open>re.sub(r'_+', '_', s)\<close> and \<open>s.strip('_')\<close>.\<close>

function squeeze_underscores :: "ustr \<Rightarrow> ustr" where
  "squeeze_underscores [] = []"
| "squeeze_underscores (c # cs) =
     (if c = 95 then 95 # squeeze_underscores (dropWhile (\<lambda>d. d = 95) cs)
      else c # squeeze_underscores cs)"
  by pat_completeness auto
termination
  by (relation "measure length") (auto simp: length_dropWhile_le less_Suc_eq_le)

definition strip_underscores :: "ustr \<Rightarrow> ustr" where
  "strip_underscores s = rev (dropWhile (\<lambda>d. d = 95) (rev (dropWhile (\<lambda>d. d = 95) s)))"

definition clean_name :: "ustr \<Rightarrow> ustr" where
  "clean_name nome =
     strip_underscores (squeeze_underscores (map clean_name_char (py_strip (py_upper nome))))"

definition name_candidates :: "ustr \<Rightarrow> ustr list" where
  "name_candidates nome =
     (if nome \<noteq> [] then
        (let nome_clean = clean_name nome
         in if nome_clean \<noteq> []
            then [ascii ''SVB_RIG_'' @ nome_clean, ascii ''SVB_PER_'' @ nome_clean,
                  ascii ''SVB_'' @ nome_clean]
            else [])
      else [])"

text \<open>
  The texts of the group that are searched for a token, \<open>links + syncs + [comments]\<close>:
  the non-blank link cells, the non-blank sync cells, and the first non-blank comment
  (the empty text when there is none).
\<close>

definition search_texts :: "ustr list \<Rightarrow> ustr list \<Rightarrow> ustr list \<Rightarrow> ustr list" where
  "search_texts link_cells sync_cells comment_cells =
     (let comments = (case filter nonblank comment_cells of [] \<Rightarrow> [] | c # cs \<Rightarrow> c);
          links = filter nonblank link_cells;
          syncs = filter nonblank sync_cells
      in links @ syncs @ [comments])"

definition candidate_ids :: "ustr \<Rightarrow> ustr \<Rightarrow> ustr list \<Rightarrow> ustr list \<Rightarrow> ustr list \<Rightarrow> ustr list" where
  "candidate_ids pid nome link_cells sync_cells comment_cells =
     (if nonblank pid then [pid] else [])
     @ filter (\<lambda>e. e \<noteq> [])
         (map extract_svb_id (search_texts link_cells sync_cells comment_cells))
     @ name_candidates nome"

fun normalize_candidates :: "ustr list \<Rightarrow> ustr list \<Rightarrow> ustr list" where
  "normalize_candidates acc [] = acc"
| "normalize_candidates acc (cid # cids) =
     (let norm_id = std_svb_id cid in
      if norm_id \<noteq> [] \<and> norm_id \<notin> set acc
      then normalize_candidates (acc @ [norm_id]) cids
      else normalize_candidates acc cids)"

definition best_id :: "ustr \<Rightarrow> ustr \<Rightarrow> ustr list \<Rightarrow> ustr list \<Rightarrow> ustr list \<Rightarrow> ustr" where
  "best_id pid nome link_cells sync_cells comment_cells =
     (case normalize_candidates [] (candidate_ids pid nome link_cells sync_cells comment_cells) of
        [] \<Rightarrow> pid
      | b # bs \<Rightarrow> b)"

section \<open>Notions used to state the properties\<close>

text \<open>
  The maximal runs of decimal digits of a text, in the words of the specification: the
  text is cut into gaps and runs that alternate, \<open>gap run gap ... run gap\<close>; a run is
  a non-empty string of digits, a gap holds no digit, and a gap between two runs is not
  empty. Such a cut of a text is unique, and \<open>runs\<close> are then its maximal runs of
  digits in their order of appearance, a repeated number as often as it appears.
\<close>

fun weave :: "ustr list \<Rightarrow> ustr list \<Rightarrow> ustr" where
  "weave (g # gs) (r # rs) = g @ r @ weave gs rs"
| "weave [g] [] = g"
| "weave gs rs = []"

definition digit_run_split :: "ustr \<Rightarrow> ustr list \<Rightarrow> ustr list \<Rightarrow> bool" where
  "digit_run_split s gaps runs =
     (length gaps = Suc (length runs) \<and> weave gaps runs = s
      \<and> (\<forall>g \<in> set gaps. \<forall>c \<in> set g. \<not> is_digit c)
      \<and> (\<forall>g \<in> set (butlast (tl gaps)). g \<noteq> [])
      \<and> (\<forall>r \<in> set runs. r \<noteq> [] \<and> (\<forall>c \<in> set r. is_digit c)))"







chapter \<open>Properties\<close>

section \<open>Evaluation of the text functions\<close>

lemma norm_key_Concluido: "norm_key lit_Concluido = ascii ''concluido''"
  by code_simp

lemma re_sub_non_az09_concluido:
  "re_sub_non_az09 (ascii ''concluido'') = ascii ''concluido''"
  by code_simp

lemma norm_key_az09: "c \<in> set (norm_key s) \<Longrightarrow> is_az09 c"
  by (simp add: norm_key_def re_sub_non_az09_def)

lemma strip_all_space: "\<forall>c \<in> set s. py_isspace c \<Longrightarrow> py_strip s = []"
proof -
  assume "\<forall>c \<in> set s. py_isspace c"
  then have "dropWhile py_isspace s = []" by simp
  then show ?thesis by (simp add: py_strip_def del: dropWhile_eq_Nil_conv)
qed

lemma strip_not_all_space: "\<exists>c \<in> set s. \<not> py_isspace c \<Longrightarrow> py_strip s \<noteq> []"
proof -
  assume a: "\<exists>c \<in> set s. \<not> py_isspace c"
  then have ne: "dropWhile py_isspace s \<noteq> []" by (simp add: dropWhile_eq_Nil_conv)
  then have "\<not> py_isspace (hd (dropWhile py_isspace s))" by (simp add: hd_dropWhile)
  moreover have "hd (dropWhile py_isspace s) \<in> set (rev (dropWhile py_isspace s))"
    using ne by simp
  ultimately have "dropWhile py_isspace (rev (dropWhile py_isspace s)) \<noteq> []"
    by (auto simp: dropWhile_eq_Nil_conv)
  then show ?thesis by (simp add: py_strip_def)
qed

lemma rev_dropWhile_rev_split:
  "\<exists>ys. s = rev (dropWhile P (rev s)) @ ys \<and> (\<forall>c \<in> set ys. P c)"
proof -
  have "rev s = takeWhile P (rev s) @ dropWhile P (rev s)" by simp
  then have "s = rev (dropWhile P (rev s)) @ rev (takeWhile P (rev s))"
    by (metis rev_append rev_rev_ident)
  moreover have "\<forall>c \<in> set (rev (takeWhile P (rev s))). P c"
    by (auto dest: set_takeWhileD)
  ultimately show ?thesis by blast
qed

section \<open>The completion flag\<close>

text \<open>
  C3, as amended. \<open>is_concluido s\<close> holds exactly when the trimmed, lower-cased,
  accent-stripped text of \<open>s\<close> (punctuation and inner spaces kept) is \<open>concluido\<close>.
  Every status that counts as done has the safe key of \<open>Concluido\<close> (with U+00ED); the
  converse is not promised.
\<close>

theorem is_concluido_normalized_text:
  "(is_concluido s \<longleftrightarrow> normalize_text s = ascii ''concluido'')
   \<and> (is_concluido s \<longrightarrow> norm_key s = norm_key lit_Concluido)"
proof -
  have "norm_key s = norm_key lit_Concluido" if "is_concluido s"
  proof -
    from that have "normalize_text s = ascii ''concluido''"
      by (simp add: is_concluido_def)
    then have "norm_key s = re_sub_non_az09 (ascii ''concluido'')"
      by (simp add: norm_key_def)
    then show ?thesis
      by (simp add: re_sub_non_az09_concluido norm_key_Concluido)
  qed
  then show ?thesis
    by (simp add: is_concluido_def)
qed

text \<open>The theorem at \<open>" CONCLUIDO "\<close>, in upper case with U+00CD and spaces around.\<close>

theorem is_concluido_normalized_text_witness:
  "is_concluido (ascii '' CONCLU'' @ [205] @ ascii ''DO '')
   \<and> norm_key (ascii '' CONCLU'' @ [205] @ ascii ''DO '') = norm_key lit_Concluido"
proof -
  have flag: "is_concluido (ascii '' CONCLU'' @ [205] @ ascii ''DO '')"
    by code_simp
  with is_concluido_normalized_text [of "ascii '' CONCLU'' @ [205] @ ascii ''DO ''"]
  show ?thesis by blast
qed

text \<open>
  The claim as stated fails at \<open>Concluido\<close> followed by a full stop: the full stop is
  kept by \<open>_normalize_text\<close>, so the status is not done, while its safe key is that of
  \<open>Concluido\<close>.
\<close>

theorem is_concluido_safe_key_counterexample:
  "\<not> (is_concluido (lit_Concluido @ ascii ''.'')
        \<longleftrightarrow> norm_key (lit_Concluido @ ascii ''.'') = norm_key lit_Concluido)"
  by code_simp

section \<open>The episode field\<close>

lemma re_split_runs_not_Nil: "re_split_runs sep s \<noteq> []"
  by (induction sep s rule: re_split_runs.induct) (auto split: list.splits)

lemma hd_split_nonsep:
  "s \<noteq> [] \<Longrightarrow> \<not> sep (hd s) \<Longrightarrow> hd (re_split_runs sep s) \<noteq> []"
  by (cases s) (auto split: list.splits)

lemma dropWhile_hd: "dropWhile P xs \<noteq> [] \<Longrightarrow> \<not> P (hd (dropWhile P xs))"
  by (simp add: hd_dropWhile)

text \<open>
  What \<open>re.findall(r"\d+", s)\<close> returns are the maximal runs of digits of \<open>s\<close>; the
  gaps between them are the pieces of \<open>re.split(r"\d+", s)\<close>.
\<close>

lemma split_findall:
  "digit_run_split s (re_split_runs is_digit s) (findall_digits s)"
proof (induction s rule: findall_digits.induct)
  case 1
  show ?case by (simp add: digit_run_split_def)
next
  case (2 c cs)
  show ?case
  proof (cases "is_digit c")
    case True
    let ?rest = "dropWhile is_digit cs"
    from 2(1)[OF True]
    have ih: "digit_run_split ?rest (re_split_runs is_digit ?rest) (findall_digits ?rest)" .
    obtain g gs where G: "re_split_runs is_digit ?rest = g # gs"
      using re_split_runs_not_Nil by (cases "re_split_runs is_digit ?rest") auto
    have inner: "gs \<noteq> [] \<Longrightarrow> g \<noteq> []"
    proof -
      assume "gs \<noteq> []"
      then have ne: "?rest \<noteq> []" using G by (cases ?rest) auto
      then have "\<not> is_digit (hd ?rest)" by (rule dropWhile_hd)
      with ne have "hd (re_split_runs is_digit ?rest) \<noteq> []" by (rule hd_split_nonsep)
      with G show ?thesis by simp
    qed
    have bl: "set (butlast (g # gs)) \<subseteq> (if gs = [] then {} else {g}) \<union> set (butlast gs)"
      by (cases gs) auto
    from ih G inner bl True show ?thesis
      by (simp add: digit_run_split_def) (auto dest: set_takeWhileD)
  next
    case False
    from 2(2)[OF False]
    have ih: "digit_run_split cs (re_split_runs is_digit cs) (findall_digits cs)" .
    obtain g gs where G: "re_split_runs is_digit cs = g # gs"
      using re_split_runs_not_Nil by (cases "re_split_runs is_digit cs") auto
    from ih G False show ?thesis
      by (cases "findall_digits cs") (auto simp: digit_run_split_def)
  qed
qed

lemma space_not_digit: "py_isspace c \<Longrightarrow> \<not> is_digit c"
  by (auto simp: py_isspace_def is_digit_def)

lemma findall_no_digit: "\<forall>c \<in> set ys. \<not> is_digit c \<Longrightarrow> findall_digits ys = []"
  by (induction ys) auto

lemma findall_dropWhile:
  "(\<And>c. P c \<Longrightarrow> \<not> is_digit c) \<Longrightarrow> findall_digits (dropWhile P s) = findall_digits s"
  by (induction s) auto

lemma findall_append_no_digit:
  "\<forall>c \<in> set ys. \<not> is_digit c \<Longrightarrow> findall_digits (xs @ ys) = findall_digits xs"
proof (induction xs rule: findall_digits.induct)
  case 1
  then show ?case by (simp add: findall_no_digit)
next
  case (2 c cs)
  show ?case
  proof (cases "is_digit c")
    case False
    with 2 show ?thesis by simp
  next
    case True
    show ?thesis
    proof (cases "\<forall>x \<in> set cs. is_digit x")
      case all: True
      have tw: "takeWhile is_digit ys = []" using 2(3) by (cases ys) auto
      have dw: "dropWhile is_digit ys = ys" using 2(3) by (cases ys) auto
      from all have a1: "takeWhile is_digit cs = cs" and a2: "dropWhile is_digit cs = []"
        by simp_all
      from all have "takeWhile is_digit (cs @ ys) = cs @ takeWhile is_digit ys"
        and "dropWhile is_digit (cs @ ys) = dropWhile is_digit ys"
        by (simp_all add: takeWhile_append2 dropWhile_append2)
      with True 2(3) a1 a2 tw dw show ?thesis
        by (simp add: findall_no_digit del: takeWhile_eq_all_conv dropWhile_eq_Nil_conv)
    next
      case False
      then obtain x where x: "x \<in> set cs" "\<not> is_digit x" by blast
      then have "takeWhile is_digit (cs @ ys) = takeWhile is_digit cs"
        "dropWhile is_digit (cs @ ys) = dropWhile is_digit cs @ ys"
        by (simp_all add: takeWhile_append1 dropWhile_append1)
      with True 2(1)[OF True 2(3)] show ?thesis by simp
    qed
  qed
qed

text \<open>Trimming the field removes no digit: the runs of the field are those of the trimmed text.\<close>

lemma findall_strip: "findall_digits (py_strip s) = findall_digits s"
proof -
  let ?t = "dropWhile py_isspace s"
  obtain ys where ys: "?t = rev (dropWhile py_isspace (rev ?t)) @ ys"
    "\<forall>c \<in> set ys. py_isspace c"
    using rev_dropWhile_rev_split [of ?t py_isspace] by blast
  then have "\<forall>c \<in> set ys. \<not> is_digit c" by (auto dest: space_not_digit)
  then have "findall_digits (rev (dropWhile py_isspace (rev ?t)) @ ys)
             = findall_digits (rev (dropWhile py_isspace (rev ?t)))"
    by (rule findall_append_no_digit)
  with ys(1) have "findall_digits (py_strip s) = findall_digits ?t"
    by (simp add: py_strip_def)
  also have "\<dots> = findall_digits s"
    by (rule findall_dropWhile) (rule space_not_digit)
  finally show ?thesis .
qed

text \<open>\<open>int\<close> reads a string of digits in base ten.\<close>

lemma py_int_snoc: "py_int (ds @ [d]) = 10 * py_int ds + int (d - 48)"
  by (simp add: py_int_def)

text \<open>
  C6. \<open>parse_episode_field\<close> returns \<open>[]\<close> for an empty or whitespace-only field, the
  single wildcard \<open>'Todos'\<close> when the trimmed field is \<open>todos\<close> in any letter case, and
  otherwise the maximal runs of decimal digits of the field, read as integers, in their
  order of appearance and with their repetitions.
\<close>

theorem parse_episode_field_spec:
  "((\<forall>c \<in> set s. py_isspace c) \<longrightarrow> parse_episode_field s = [])
   \<and> (py_lower (py_strip s) = ascii ''todos'' \<longrightarrow>
        parse_episode_field s = [EpStr (ascii ''Todos'')])
   \<and> ((\<exists>c \<in> set s. \<not> py_isspace c) \<and> py_lower (py_strip s) \<noteq> ascii ''todos'' \<longrightarrow>
        (\<exists>gaps runs. digit_run_split s gaps runs
           \<and> parse_episode_field s = map (\<lambda>r. EpInt (py_int r)) runs))
   \<and> parse_episode_field (ascii ''101, 102 e 113'') = [EpInt 101, EpInt 102, EpInt 113]"
proof (intro conjI impI)
  assume "\<forall>c \<in> set s. py_isspace c"
  then show "parse_episode_field s = []"
    by (simp add: parse_episode_field_def strip_all_space)
next
  assume t: "py_lower (py_strip s) = ascii ''todos''"
  then have ne: "py_strip s \<noteq> []" by (auto simp: py_lower_def ascii_def)
  then have "s \<noteq> []" by (auto simp: py_strip_def)
  with t ne show "parse_episode_field s = [EpStr (ascii ''Todos'')]"
    by (simp add: parse_episode_field_def)
next
  assume a: "(\<exists>c \<in> set s. \<not> py_isspace c) \<and> py_lower (py_strip s) \<noteq> ascii ''todos''"
  then have ne: "py_strip s \<noteq> []" "s \<noteq> []" by (auto simp: strip_not_all_space)
  with a have "parse_episode_field s = map (\<lambda>r. EpInt (py_int r)) (findall_digits s)"
    by (simp add: parse_episode_field_def findall_strip)
  with split_findall [of s]
  show "\<exists>gaps runs. digit_run_split s gaps runs
          \<and> parse_episode_field s = map (\<lambda>r. EpInt (py_int r)) runs"
    by blast
next
  show "parse_episode_field (ascii ''101, 102 e 113'') = [EpInt 101, EpInt 102, EpInt 113]"
    by code_simp
qed

text \<open>The theorem at a blank field, at \<open>" TODOS"\<close> and at \<open>"ep 7 e 7"\<close>.\<close>

theorem parse_episode_field_spec_witness:
  "parse_episode_field (ascii ''  '') = []
   \<and> parse_episode_field (ascii '' TODOS'') = [EpStr (ascii ''Todos'')]
   \<and> (\<exists>gaps runs. digit_run_split (ascii ''ep 7 e 7'') gaps runs
          \<and> parse_episode_field (ascii ''ep 7 e 7'') = map (\<lambda>r. EpInt (py_int r)) runs)"
proof -
  have h1: "\<forall>c \<in> set (ascii ''  ''). py_isspace c"
    by code_simp
  have h2: "py_lower (py_strip (ascii '' TODOS'')) = ascii ''todos''"
    by code_simp
  have h3: "(\<exists>c \<in> set (ascii ''ep 7 e 7''). \<not> py_isspace c)
            \<and> py_lower (py_strip (ascii ''ep 7 e 7'')) \<noteq> ascii ''todos''"
    by code_simp
  from h1 h2 h3 parse_episode_field_spec [of "ascii ''  ''"]
    parse_episode_field_spec [of "ascii '' TODOS''"]
    parse_episode_field_spec [of "ascii ''ep 7 e 7''"]
  show ?thesis by blast
qed

section \<open>The exploded table\<close>

lemma int_episodes_set: "set (int_episodes ps) = {n. EpInt n \<in> set ps}"
  by (induction ps) (auto simp: int_episodes_def split: ep.splits)

lemma filter_int_cells_Elem:
  "filter is_int_cell (map Elem lst) = map (\<lambda>n. Elem (EpInt n)) (int_episodes lst)"
  by (induction lst) (auto simp: is_int_cell_def int_episodes_def split: ep.splits)

lemma int_episodes_EpInt: "int_episodes (map EpInt ns) = ns"
  by (induction ns) (auto simp: int_episodes_def)

lemma kept_cells:
  "filter is_int_cell (explode lst) = map (\<lambda>n. Elem (EpInt n)) (int_episodes lst)"
  by (cases lst) (auto simp: explode_def filter_int_cells_Elem is_int_cell_def int_episodes_def
      simp del: list.map split: ep.splits)

text \<open>The episode cells of the rows of a record are the integers of its expanded list.\<close>

lemma explode_record_cells:
  "map ep_list (explode_record U r) =
     map (\<lambda>n. Elem (EpInt n))
       (int_episodes (if U \<noteq> [] then expand U (parse_episode_field (row_get r COL_EP))
                      else parse_episode_field (row_get r COL_EP)))"
  by (simp add: explode_record_def Let_def kept_cells make_exp_row_def comp_def)

lemma explode_record_src: "x \<in> set (explode_record U r) \<Longrightarrow> src x = r"
  by (auto simp: explode_record_def Let_def make_exp_row_def)

lemma explode_record_int: "x \<in> set (explode_record U r) \<Longrightarrow> \<exists>n. ep_list x = Elem (EpInt n)"
proof -
  assume "x \<in> set (explode_record U r)"
  then have "ep_list x \<in> set (map ep_list (explode_record U r))" by simp
  then show ?thesis unfolding explode_record_cells by auto
qed

lemma explode_record_none:
  "int_episodes (if U \<noteq> [] then expand U (parse_episode_field (row_get r COL_EP))
                 else parse_episode_field (row_get r COL_EP)) = []
   \<Longrightarrow> explode_record U r = []"
proof -
  assume "int_episodes (if U \<noteq> [] then expand U (parse_episode_field (row_get r COL_EP))
                 else parse_episode_field (row_get r COL_EP)) = []"
  then have "map ep_list (explode_record U r) = []"
    by (simp only: explode_record_cells list.map)
  then show ?thesis by simp
qed

lemma is_todos_EpInt: "\<not> is_todos (EpInt n)"
  by (simp add: is_todos_def)

lemma is_todos_Todos: "is_todos (EpStr (ascii ''Todos''))"
  by code_simp

lemma row_get_single: "row_get [c \<mapsto> v] c = v"
  by (simp add: row_get_def)

lemma parse_examples:
  "parse_episode_field (ascii ''1, 3'') = [EpInt 1, EpInt 3]"
  "parse_episode_field (ascii ''2'') = [EpInt 2]"
  "parse_episode_field (ascii ''Todos'') = [EpStr (ascii ''Todos'')]"
  by code_simp+

text \<open>
  The frame of the example: three records with the episode fields \<open>1, 3\<close>, \<open>2\<close> and
  \<open>Todos\<close>. Its universe is \<open>[1, 2, 3]\<close>, and the page explodes it into the rows of
  the episodes \<open>1, 3\<close>, then \<open>2\<close>, then \<open>1, 2, 3\<close> for the wildcard record.
\<close>

lemma example_universe:
  "detect_all_numeric_episodes
     \<lparr>columns = [COL_EP, COL_NAME, COL_FILE_ID],
      rows = [[COL_EP \<mapsto> ascii ''1, 3''], [COL_EP \<mapsto> ascii ''2''],
              [COL_EP \<mapsto> ascii ''Todos'']]\<rparr>
   = Inr [1, 2, 3]"
  by (simp add: detect_all_numeric_episodes_def row_get_single parse_examples int_episodes_def)

lemma example_base_exp:
  "map_sum id (map ep_list) (base_exp_of
     \<lparr>columns = [COL_EP, COL_NAME, COL_FILE_ID],
      rows = [[COL_EP \<mapsto> ascii ''1, 3''], [COL_EP \<mapsto> ascii ''2''],
              [COL_EP \<mapsto> ascii ''Todos'']]\<rparr>)
   = Inr [Elem (EpInt 1), Elem (EpInt 3), Elem (EpInt 2),
          Elem (EpInt 1), Elem (EpInt 2), Elem (EpInt 3)]"
  by (simp only: base_exp_of_def example_universe sum.case)
     (simp add: build_base_exp_def map_concat comp_def explode_record_cells
        row_get_single parse_examples expand_def is_todos_Todos is_todos_EpInt int_episodes_def)

lemma build_base_exp_rows:
  "COL_EP \<in> set (columns df) \<Longrightarrow> COL_NAME \<in> set (columns df) \<Longrightarrow>
   COL_FILE_ID \<in> set (columns df) \<Longrightarrow> rows df \<noteq> [] \<Longrightarrow>
   build_base_exp df U = Inr (concat (map (explode_record U) (rows df)))"
  by (simp add: build_base_exp_def)

lemma detect_present:
  "COL_EP \<in> set (columns df) \<Longrightarrow>
   detect_all_numeric_episodes df = Inr (sort (remdups (concat
     (map (\<lambda>r. int_episodes (parse_episode_field (row_get r COL_EP))) (rows df)))))"
  by (simp add: detect_all_numeric_episodes_def)

text \<open>
  C7. The universe that \<open>detect_all_numeric_episodes\<close> computes is the sorted list of
  the distinct integer episodes of all the records of the frame. A list that holds the
  wildcard is replaced as a whole by the universe, whatever else it holds, and a list
  without the wildcard is left as it is; so, when the universe is not empty, a record
  whose parsed list holds the wildcard explodes into one row per episode of the
  universe, in its order, and a record without the wildcard into one row per integer of
  its own list. On a frame that has the three columns and at least one row the explosion
  succeeds and is the concatenation of the rows of its records, and the page explodes
  every record with the universe of the whole frame. The frame of the example, with the
  episodes \<open>1, 3\<close>, \<open>2\<close> and a wildcard record, explodes into the rows of the episodes
  1, 3, then 2, then 1, 2, 3.
\<close>

theorem wildcard_expands_to_universe:
  "(detect_all_numeric_episodes df = Inr U \<longrightarrow>
      sorted U \<and> distinct U
      \<and> set U = {n. \<exists>r \<in> set (rows df). EpInt n \<in> set (parse_episode_field (row_get r COL_EP))})
   \<and> (list_ex is_todos lst \<longrightarrow> expand U lst = map EpInt U)
   \<and> (\<not> list_ex is_todos lst \<longrightarrow> expand U lst = lst)
   \<and> (U \<noteq> [] \<and> list_ex is_todos (parse_episode_field (row_get r COL_EP)) \<longrightarrow>
        map ep_list (explode_record U r) = map (\<lambda>n. Elem (EpInt n)) U
        \<and> (\<forall>x \<in> set (explode_record U r). src x = r))
   \<and> (\<not> list_ex is_todos (parse_episode_field (row_get r COL_EP)) \<longrightarrow>
        map ep_list (explode_record U r)
          = map (\<lambda>n. Elem (EpInt n)) (int_episodes (parse_episode_field (row_get r COL_EP))))
   \<and> (COL_EP \<in> set (columns df) \<and> COL_NAME \<in> set (columns df)
        \<and> COL_FILE_ID \<in> set (columns df) \<and> rows df \<noteq> [] \<longrightarrow>
        build_base_exp df U = Inr (concat (map (explode_record U) (rows df)))
        \<and> (\<exists>V. detect_all_numeric_episodes df = Inr V
              \<and> base_exp_of df = Inr (concat (map (explode_record V) (rows df)))))
   \<and> (base_exp_of df = Inr out \<longrightarrow>
        (\<exists>V. detect_all_numeric_episodes df = Inr V
           \<and> out = concat (map (explode_record V) (rows df))))
   \<and> map_sum id (map ep_list) (base_exp_of
        \<lparr>columns = [COL_EP, COL_NAME, COL_FILE_ID],
         rows = [[COL_EP \<mapsto> ascii ''1, 3''], [COL_EP \<mapsto> ascii ''2''],
                 [COL_EP \<mapsto> ascii ''Todos'']]\<rparr>)
      = Inr [Elem (EpInt 1), Elem (EpInt 3), Elem (EpInt 2),
             Elem (EpInt 1), Elem (EpInt 2), Elem (EpInt 3)]"
proof (intro conjI impI)
  assume "detect_all_numeric_episodes df = Inr U"
  then have U: "U = sort (remdups (concat
      (map (\<lambda>r. int_episodes (parse_episode_field (row_get r COL_EP))) (rows df))))"
    by (auto simp: detect_all_numeric_episodes_def split: if_splits)
  show "sorted U" by (simp add: U)
  show "distinct U" by (simp add: U)
  show "set U = {n. \<exists>r \<in> set (rows df). EpInt n \<in> set (parse_episode_field (row_get r COL_EP))}"
    by (auto simp: U int_episodes_set)
next
  assume "list_ex is_todos lst"
  then show "expand U lst = map EpInt U" by (simp add: expand_def)
next
  assume "\<not> list_ex is_todos lst"
  then show "expand U lst = lst" by (simp add: expand_def)
next
  assume a: "U \<noteq> [] \<and> list_ex is_todos (parse_episode_field (row_get r COL_EP))"
  then show "map ep_list (explode_record U r) = map (\<lambda>n. Elem (EpInt n)) U"
    by (simp add: explode_record_cells expand_def int_episodes_EpInt)
  show "\<forall>x \<in> set (explode_record U r). src x = r"
    by (auto dest: explode_record_src)
next
  assume "\<not> list_ex is_todos (parse_episode_field (row_get r COL_EP))"
  then show "map ep_list (explode_record U r)
          = map (\<lambda>n. Elem (EpInt n)) (int_episodes (parse_episode_field (row_get r COL_EP)))"
    by (simp add: explode_record_cells expand_def)
next
  assume a: "COL_EP \<in> set (columns df) \<and> COL_NAME \<in> set (columns df)
        \<and> COL_FILE_ID \<in> set (columns df) \<and> rows df \<noteq> []"
  then show "build_base_exp df U = Inr (concat (map (explode_record U) (rows df)))"
    by (simp add: build_base_exp_rows)
  from a show "\<exists>V. detect_all_numeric_episodes df = Inr V
              \<and> base_exp_of df = Inr (concat (map (explode_record V) (rows df)))"
    by (simp add: base_exp_of_def detect_present build_base_exp_rows)
next
  assume b: "base_exp_of df = Inr out"
  then obtain V where V: "detect_all_numeric_episodes df = Inr V"
    by (cases "detect_all_numeric_episodes df") (auto simp: base_exp_of_def)
  with b have "build_base_exp df V = Inr out"
    by (simp add: base_exp_of_def)
  then have "out = concat (map (explode_record V) (rows df))"
    by (auto simp: build_base_exp_def split: if_splits)
  with V show "\<exists>V. detect_all_numeric_episodes df = Inr V
           \<and> out = concat (map (explode_record V) (rows df))"
    by blast
next
  show "map_sum id (map ep_list) (base_exp_of
        \<lparr>columns = [COL_EP, COL_NAME, COL_FILE_ID],
         rows = [[COL_EP \<mapsto> ascii ''1, 3''], [COL_EP \<mapsto> ascii ''2''],
                 [COL_EP \<mapsto> ascii ''Todos'']]\<rparr>)
      = Inr [Elem (EpInt 1), Elem (EpInt 3), Elem (EpInt 2),
             Elem (EpInt 1), Elem (EpInt 2), Elem (EpInt 3)]"
    by (rule example_base_exp)
qed

text \<open>
  The theorem at the frame of the example: the universe is \<open>[1, 2, 3]\<close>, a mixed list
  with the wildcard becomes the universe, the wildcard record gives the rows of the
  episodes 1, 2 and 3 and the record of the episodes \<open>1, 3\<close> its own two rows, and the
  explosion of the frame succeeds with the six rows of its three records.
\<close>

theorem wildcard_expands_to_universe_witness:
  "detect_all_numeric_episodes
     \<lparr>columns = [COL_EP, COL_NAME, COL_FILE_ID],
      rows = [[COL_EP \<mapsto> ascii ''1, 3''], [COL_EP \<mapsto> ascii ''2''],
              [COL_EP \<mapsto> ascii ''Todos'']]\<rparr>
     = Inr [1, 2, 3]
   \<and> sorted [1, 2, 3 :: int] \<and> distinct [1, 2, 3 :: int]
   \<and> expand [1, 2, 3] [EpInt 7, EpStr (ascii ''Todos'')] = [EpInt 1, EpInt 2, EpInt 3]
   \<and> expand [1, 2, 3] [EpInt 7, EpInt 1] = [EpInt 7, EpInt 1]
   \<and> map ep_list (explode_record [1, 2, 3] ([COL_EP \<mapsto> ascii ''Todos'']))
       = [Elem (EpInt 1), Elem (EpInt 2), Elem (EpInt 3)]
   \<and> map ep_list (explode_record [1, 2, 3] ([COL_EP \<mapsto> ascii ''1, 3'']))
       = [Elem (EpInt 1), Elem (EpInt 3)]
   \<and> map_sum id (map ep_list) (build_base_exp
        \<lparr>columns = [COL_EP, COL_NAME, COL_FILE_ID],
         rows = [[COL_EP \<mapsto> ascii ''1, 3''], [COL_EP \<mapsto> ascii ''2''],
                 [COL_EP \<mapsto> ascii ''Todos'']]\<rparr> [1, 2, 3])
      = Inr [Elem (EpInt 1), Elem (EpInt 3), Elem (EpInt 2),
             Elem (EpInt 1), Elem (EpInt 2), Elem (EpInt 3)]
   \<and> map_sum id (map ep_list) (base_exp_of
        \<lparr>columns = [COL_EP, COL_NAME, COL_FILE_ID],
         rows = [[COL_EP \<mapsto> ascii ''1, 3''], [COL_EP \<mapsto> ascii ''2''],
                 [COL_EP \<mapsto> ascii ''Todos'']]\<rparr>)
      = Inr [Elem (EpInt 1), Elem (EpInt 3), Elem (EpInt 2),
             Elem (EpInt 1), Elem (EpInt 2), Elem (EpInt 3)]
   \<and> (\<exists>V. detect_all_numeric_episodes
          \<lparr>columns = [COL_EP, COL_NAME, COL_FILE_ID],
           rows = [[COL_EP \<mapsto> ascii ''1, 3''], [COL_EP \<mapsto> ascii ''2''],
                   [COL_EP \<mapsto> ascii ''Todos'']]\<rparr> = Inr V
        \<and> concat (map (explode_record [1, 2, 3])
              [[COL_EP \<mapsto> ascii ''1, 3''], [COL_EP \<mapsto> ascii ''2''],
               [COL_EP \<mapsto> ascii ''Todos'']])
          = concat (map (explode_record V)
              [[COL_EP \<mapsto> ascii ''1, 3''], [COL_EP \<mapsto> ascii ''2''],
               [COL_EP \<mapsto> ascii ''Todos'']]))"
proof -
  let ?df = "\<lparr>columns = [COL_EP, COL_NAME, COL_FILE_ID],
      rows = [[COL_EP \<mapsto> ascii ''1, 3''], [COL_EP \<mapsto> ascii ''2''],
              [COL_EP \<mapsto> ascii ''Todos'']]\<rparr>"
  have h2: "list_ex is_todos [EpInt 7, EpStr (ascii ''Todos'')]"
    by (simp add: is_todos_Todos)
  have h2': "\<not> list_ex is_todos [EpInt 7, EpInt 1]"
    by (simp add: is_todos_EpInt)
  have h3: "[1, 2, 3] \<noteq> ([]::int list)
            \<and> list_ex is_todos (parse_episode_field
                  (row_get ([COL_EP \<mapsto> ascii ''Todos'']) COL_EP))"
    by (simp add: row_get_single parse_examples is_todos_Todos)
  have h4: "\<not> list_ex is_todos (parse_episode_field
                  (row_get ([COL_EP \<mapsto> ascii ''1, 3'']) COL_EP))"
    by (simp add: row_get_single parse_examples is_todos_EpInt)
  have h5: "COL_EP \<in> set (columns ?df) \<and> COL_NAME \<in> set (columns ?df)
        \<and> COL_FILE_ID \<in> set (columns ?df) \<and> rows ?df \<noteq> []"
    by simp
  note t = wildcard_expands_to_universe [of ?df "[1, 2, 3]" "[EpInt 7, EpStr (ascii ''Todos'')]"
      "[COL_EP \<mapsto> ascii ''Todos'']"]
  note t' = wildcard_expands_to_universe [of ?df "[1, 2, 3]" "[EpInt 7, EpInt 1]"
      "[COL_EP \<mapsto> ascii ''1, 3'']"]
  have a1: "sorted [1, 2, 3 :: int] \<and> distinct [1, 2, 3 :: int]"
    using t [THEN conjunct1, rule_format, OF example_universe] by simp
  have a2: "expand [1, 2, 3] [EpInt 7, EpStr (ascii ''Todos'')] = map EpInt [1, 2, 3]"
    using t [THEN conjunct2, THEN conjunct1] h2 by (rule mp)
  have a2': "expand [1, 2, 3] [EpInt 7, EpInt 1] = [EpInt 7, EpInt 1]"
    using t' [THEN conjunct2, THEN conjunct2, THEN conjunct1] h2' by (rule mp)
  have a3: "map ep_list (explode_record [1, 2, 3] [COL_EP \<mapsto> ascii ''Todos''])
       = map (\<lambda>n. Elem (EpInt n)) [1, 2, 3]"
    using t [THEN conjunct2, THEN conjunct2, THEN conjunct2, THEN conjunct1, rule_format, OF h3]
    by (rule conjunct1)
  have a4: "map ep_list (explode_record [1, 2, 3] [COL_EP \<mapsto> ascii ''1, 3''])
       = map (\<lambda>n. Elem (EpInt n))
           (int_episodes (parse_episode_field (row_get [COL_EP \<mapsto> ascii ''1, 3''] COL_EP)))"
    using t' [THEN conjunct2, THEN conjunct2, THEN conjunct2, THEN conjunct2, THEN conjunct1] h4
    by (rule mp)
  have a5: "build_base_exp ?df [1, 2, 3]
       = Inr (concat (map (explode_record [1, 2, 3]) (rows ?df)))"
    using t [THEN conjunct2, THEN conjunct2, THEN conjunct2, THEN conjunct2, THEN conjunct2,
        THEN conjunct1, rule_format, OF h5]
    by (rule conjunct1)
  have a6: "\<exists>V. detect_all_numeric_episodes ?df = Inr V
       \<and> base_exp_of ?df = Inr (concat (map (explode_record V) (rows ?df)))"
    using t [THEN conjunct2, THEN conjunct2, THEN conjunct2, THEN conjunct2, THEN conjunct2,
        THEN conjunct1, rule_format, OF h5]
    by (rule conjunct2)
  have a7: "base_exp_of ?df = Inr (concat (map (explode_record [1, 2, 3]) (rows ?df)))"
    using a6 by (simp only: example_universe) simp
  have cells: "map ep_list (concat (map (explode_record [1, 2, 3]) (rows ?df)))
      = [Elem (EpInt 1), Elem (EpInt 3), Elem (EpInt 2),
         Elem (EpInt 1), Elem (EpInt 2), Elem (EpInt 3)]"
    by (simp add: map_concat comp_def explode_record_cells
        row_get_single parse_examples expand_def is_todos_Todos is_todos_EpInt int_episodes_def)
  have b5: "map_sum id (map ep_list) (build_base_exp ?df [1, 2, 3])
      = Inr [Elem (EpInt 1), Elem (EpInt 3), Elem (EpInt 2),
             Elem (EpInt 1), Elem (EpInt 2), Elem (EpInt 3)]"
    by (simp only: a5 map_sum.simps cells id_apply)
  have b7: "map_sum id (map ep_list) (base_exp_of ?df)
      = Inr [Elem (EpInt 1), Elem (EpInt 3), Elem (EpInt 2),
             Elem (EpInt 1), Elem (EpInt 2), Elem (EpInt 3)]"
    by (simp only: a7 map_sum.simps cells id_apply)
  have a4': "map ep_list (explode_record [1, 2, 3] [COL_EP \<mapsto> ascii ''1, 3''])
       = [Elem (EpInt 1), Elem (EpInt 3)]"
    using a4 by (simp add: row_get_single parse_examples int_episodes_def)
  have a8: "\<exists>V. detect_all_numeric_episodes ?df = Inr V
       \<and> concat (map (explode_record [1, 2, 3]) (rows ?df))
         = concat (map (explode_record V) (rows ?df))"
    using wildcard_expands_to_universe [where df = ?df
        and out = "concat (map (explode_record [1, 2, 3]) (rows ?df))",
        THEN conjunct2, THEN conjunct2, THEN conjunct2, THEN conjunct2, THEN conjunct2,
        THEN conjunct2, THEN conjunct1] a7
    by (rule mp)
  have c8: "\<exists>V. detect_all_numeric_episodes ?df = Inr V
        \<and> concat (map (explode_record [1, 2, 3])
              [[COL_EP \<mapsto> ascii ''1, 3''], [COL_EP \<mapsto> ascii ''2''],
               [COL_EP \<mapsto> ascii ''Todos'']])
          = concat (map (explode_record V)
              [[COL_EP \<mapsto> ascii ''1, 3''], [COL_EP \<mapsto> ascii ''2''],
               [COL_EP \<mapsto> ascii ''Todos'']])"
    using a8 by (simp only: dataframe.simps)
  have c1: "detect_all_numeric_episodes ?df = Inr [1, 2, 3]
      \<and> sorted [1, 2, 3 :: int] \<and> distinct [1, 2, 3 :: int]
      \<and> expand [1, 2, 3] [EpInt 7, EpStr (ascii ''Todos'')] = [EpInt 1, EpInt 2, EpInt 3]
      \<and> expand [1, 2, 3] [EpInt 7, EpInt 1] = [EpInt 7, EpInt 1]
      \<and> map ep_list (explode_record [1, 2, 3] ([COL_EP \<mapsto> ascii ''Todos'']))
          = [Elem (EpInt 1), Elem (EpInt 2), Elem (EpInt 3)]
      \<and> map ep_list (explode_record [1, 2, 3] ([COL_EP \<mapsto> ascii ''1, 3'']))
          = [Elem (EpInt 1), Elem (EpInt 3)]"
    using example_universe a1 a2 a2' a3 a4' by simp
  from c1 b5 b7 c8 show ?thesis by (simp only: simp_thms)
qed

text \<open>
  C10. Every row of the exploded table carries one integer episode, for a single record
  and for the whole frame. A record whose field is empty or blank, or holds no digit and
  is not the wildcard, contributes no row; nor does a wildcard record when the universe
  is empty.
\<close>

theorem exploded_rows_are_integer:
  "(\<forall>x \<in> set (explode_record U r). \<exists>n. ep_list x = Elem (EpInt n))
   \<and> (build_base_exp df U = Inr out \<longrightarrow> (\<forall>x \<in> set out. \<exists>n. ep_list x = Elem (EpInt n)))
   \<and> ((\<forall>c \<in> set (row_get r COL_EP). py_isspace c) \<longrightarrow> explode_record U r = [])
   \<and> ((\<forall>c \<in> set (row_get r COL_EP). \<not> is_digit c)
        \<and> py_lower (py_strip (row_get r COL_EP)) \<noteq> ascii ''todos'' \<longrightarrow>
          explode_record U r = [])
   \<and> (py_lower (py_strip (row_get r COL_EP)) = ascii ''todos'' \<longrightarrow> explode_record [] r = [])"
proof (intro conjI impI)
  show "\<forall>x \<in> set (explode_record U r). \<exists>n. ep_list x = Elem (EpInt n)"
    by (auto dest: explode_record_int)
next
  assume "build_base_exp df U = Inr out"
  then have "out = concat (map (explode_record U) (rows df))"
    by (auto simp: build_base_exp_def split: if_splits)
  then show "\<forall>x \<in> set out. \<exists>n. ep_list x = Elem (EpInt n)"
    by (auto dest: explode_record_int)
next
  assume "\<forall>c \<in> set (row_get r COL_EP). py_isspace c"
  then have "parse_episode_field (row_get r COL_EP) = []"
    by (simp add: parse_episode_field_def strip_all_space)
  then show "explode_record U r = []"
    by (intro explode_record_none) (simp add: expand_def int_episodes_def)
next
  assume a: "(\<forall>c \<in> set (row_get r COL_EP). \<not> is_digit c)
        \<and> py_lower (py_strip (row_get r COL_EP)) \<noteq> ascii ''todos''"
  then have "findall_digits (py_strip (row_get r COL_EP)) = []"
    by (simp add: findall_strip findall_no_digit)
  with a have "parse_episode_field (row_get r COL_EP) = []"
    by (simp add: parse_episode_field_def Let_def)
  then show "explode_record U r = []"
    by (intro explode_record_none) (simp add: expand_def int_episodes_def)
next
  assume "py_lower (py_strip (row_get r COL_EP)) = ascii ''todos''"
  then have "parse_episode_field (row_get r COL_EP) = [] \<or>
      parse_episode_field (row_get r COL_EP) = [EpStr (ascii ''Todos'')]"
    by (simp add: parse_episode_field_def Let_def)
  then show "explode_record [] r = []"
    by (intro explode_record_none) (auto simp: int_episodes_def)
qed

text \<open>
  The theorem at a blank field, at the field \<open>a definir\<close> and at the wildcard with an
  empty universe; the record of the episodes \<open>1, 3\<close> gives two rows, each with its
  integer.
\<close>

theorem exploded_rows_are_integer_witness:
  "explode_record [1, 2] ([COL_EP \<mapsto> ascii ''  '']) = []
   \<and> explode_record [1, 2] ([COL_EP \<mapsto> ascii ''a definir'']) = []
   \<and> explode_record [] ([COL_EP \<mapsto> ascii ''Todos'']) = []
   \<and> map ep_list (explode_record [1, 2] ([COL_EP \<mapsto> ascii ''1, 3'']))
       = [Elem (EpInt 1), Elem (EpInt 3)]"
proof -
  have h1: "\<forall>c \<in> set (row_get ([COL_EP \<mapsto> ascii ''  '']) COL_EP). py_isspace c"
    unfolding row_get_single by code_simp
  have h2: "(\<forall>c \<in> set (row_get ([COL_EP \<mapsto> ascii ''a definir'']) COL_EP). \<not> is_digit c)
      \<and> py_lower (py_strip (row_get ([COL_EP \<mapsto> ascii ''a definir'']) COL_EP))
          \<noteq> ascii ''todos''"
    unfolding row_get_single by code_simp
  have h3: "py_lower (py_strip (row_get ([COL_EP \<mapsto> ascii ''Todos'']) COL_EP))
      = ascii ''todos''"
    unfolding row_get_single by code_simp
  have c: "map ep_list (explode_record [1, 2] ([COL_EP \<mapsto> ascii ''1, 3'']))
       = [Elem (EpInt 1), Elem (EpInt 3)]"
    by (simp add: explode_record_cells row_get_single parse_examples expand_def
        is_todos_EpInt int_episodes_def)
  have a1: "explode_record [1, 2] [COL_EP \<mapsto> ascii ''  ''] = []"
    using exploded_rows_are_integer [of "[1, 2]" "[COL_EP \<mapsto> ascii ''  '']",
      THEN conjunct2, THEN conjunct2, THEN conjunct1] h1
    by (rule mp)
  have a2: "explode_record [1, 2] [COL_EP \<mapsto> ascii ''a definir''] = []"
    using exploded_rows_are_integer [of "[1, 2]" "[COL_EP \<mapsto> ascii ''a definir'']",
      THEN conjunct2, THEN conjunct2, THEN conjunct2, THEN conjunct1] h2
    by (rule mp)
  have a3: "explode_record [] [COL_EP \<mapsto> ascii ''Todos''] = []"
    using exploded_rows_are_integer [of "[]" "[COL_EP \<mapsto> ascii ''Todos'']",
      THEN conjunct2, THEN conjunct2, THEN conjunct2, THEN conjunct2] h3
    by (rule mp)
  from a1 a2 a3 c show ?thesis by (intro conjI)
qed

section \<open>Deduplication in the statistics\<close>

lemma drop_duplicates_keys:
  "set (map key (drop_duplicates key seen rs)) = key ` set rs - set seen"
  by (induction rs arbitrary: seen) auto

lemma drop_duplicates_distinct:
  "distinct (map key (drop_duplicates key seen rs))"
  by (induction rs arbitrary: seen) (auto simp: drop_duplicates_keys simp del: set_map)

lemma drop_duplicates_seen_cong:
  "set seen = set seen' \<Longrightarrow> drop_duplicates key seen rs = drop_duplicates key seen' rs"
proof (induction rs arbitrary: seen seen')
  case Nil
  show ?case by simp
next
  case (Cons r rs)
  from Cons.prems have m: "key r \<in> set seen \<longleftrightarrow> key r \<in> set seen'"
    by simp
  from Cons.prems have "set (key r # seen) = set (key r # seen')"
    by simp
  then have a: "drop_duplicates key (key r # seen) rs = drop_duplicates key (key r # seen') rs"
    by (rule Cons.IH)
  have b: "drop_duplicates key seen rs = drop_duplicates key seen' rs"
    using Cons.prems by (rule Cons.IH)
  from m a b show ?case by simp
qed

lemma drop_duplicates_append:
  "drop_duplicates key seen (xs @ ys) =
     drop_duplicates key seen xs @ drop_duplicates key (map key xs @ seen) ys"
proof (induction xs arbitrary: seen)
  case Nil
  show ?case by simp
next
  case (Cons x xs)
  show ?case
  proof (cases "key x \<in> set seen")
    case True
    then have "set (map key (x # xs) @ seen) = set (map key xs @ seen)" by auto
    then have "drop_duplicates key (map key (x # xs) @ seen) ys
               = drop_duplicates key (map key xs @ seen) ys"
      by (rule drop_duplicates_seen_cong)
    with True Cons show ?thesis by simp
  next
    case False
    have "set (map key (x # xs) @ seen) = set (map key xs @ key x # seen)" by auto
    then have "drop_duplicates key (map key (x # xs) @ seen) ys
               = drop_duplicates key (map key xs @ key x # seen) ys"
      by (rule drop_duplicates_seen_cong)
    with False Cons show ?thesis by simp
  qed
qed

text \<open>As many rows survive as there are keys.\<close>

lemma drop_duplicates_length:
  "length (drop_duplicates key [] rs) = card (key ` set rs)"
proof -
  have "length (drop_duplicates key [] rs) = length (map key (drop_duplicates key [] rs))"
    by simp
  also have "\<dots> = card (set (map key (drop_duplicates key [] rs)))"
    by (simp only: distinct_card [OF drop_duplicates_distinct])
  also have "\<dots> = card (key ` set rs)"
    by (simp only: drop_duplicates_keys) simp
  finally show ?thesis .
qed

text \<open>A row whose key is new is kept where it stands; a row whose key came before is dropped.\<close>

lemma drop_duplicates_first:
  "key r \<notin> key ` set pre \<Longrightarrow>
   drop_duplicates key [] (pre @ r # post) =
     drop_duplicates key [] pre @ r # drop_duplicates key (key r # map key pre) post"
  by (simp add: drop_duplicates_append)

lemma drop_duplicates_later:
  "key r \<in> key ` set pre \<Longrightarrow>
   drop_duplicates key [] (pre @ r # post) = drop_duplicates key [] (pre @ post)"
  by (simp add: drop_duplicates_append)

text \<open>The key of stats.py does not depend on the letter case of the cell.\<close>

lemma isspace_lower: "py_isspace (lower_cp c) = py_isspace c"
  by (auto simp: lower_cp_def py_isspace_def)

lemma isspace_lower_comp: "py_isspace \<circ> lower_cp = py_isspace"
  by (rule ext) (simp add: isspace_lower)

lemma lower_strip: "py_lower (py_strip s) = py_strip (py_lower s)"
  by (simp add: py_lower_def py_strip_def dropWhile_map rev_map isspace_lower_comp)

lemma stats_norm_key_caseless:
  "py_lower s = py_lower t \<Longrightarrow> stats_norm_key s = stats_norm_key t"
  by (simp add: stats_norm_key_def lower_strip)

lemma stats_norm_key_norm_key: "stats_norm_key s = norm_key s"
  by (cases "s = []")
     (simp_all add: stats_norm_key_def norm_key_def normalize_text_def py_strip_def
        py_lower_def py_nfd_def)

text \<open>Deduplicating the rows that carry their key is deduplicating the rows by their key.\<close>

lemma drop_duplicates_map:
  "drop_duplicates k seen (map f rs) = map f (drop_duplicates (\<lambda>r. k (f r)) seen rs)"
  by (induction rs arbitrary: seen) auto

lemma with_uniq_get: "row_get (with_uniq id_col name_col r) COL_UNIQ = uniq_key id_col name_col r"
  by (simp add: with_uniq_def row_get_def)

lemma dedup_df_rows:
  "col_present id_col df \<or> col_present name_col df \<Longrightarrow>
   rows (dedup_df df id_col name_col)
     = map (with_uniq id_col name_col)
         (drop_duplicates (uniq_key id_col name_col) [] (rows df))"
  by (simp add: dedup_df_def drop_duplicates_map with_uniq_get)

lemma uniq_key_both:
  "c \<noteq> [] \<Longrightarrow> n \<noteq> [] \<Longrightarrow>
   uniq_key (Some c) (Some n) r
     = (if stats_norm_key (row_get r c) \<noteq> [] then stats_norm_key (row_get r c)
        else stats_norm_key (row_get r n))"
  by (simp add: uniq_key_def col_key_def)

text \<open>
  C9. \<open>overall_stats\<close> deduplicates only when the id column or the name column is
  given and is a column of the frame; otherwise the frame is counted as it is, row by
  row. When it deduplicates, the total is the number of distinct keys of the rows, the
  kept rows are the first rows of their keys, in the order of the frame and each with
  its key in the helper column: a row whose key appeared before is dropped and a row
  whose key is new is kept. The key of a row is the normalized file id when that
  normalized form is not empty, and the normalized name otherwise; the normal form is
  the safe key (lower case, no accents, only a-z and 0-9), so it does not depend on the
  letter case. Hence two rows with the same file id have one key, whatever their names,
  when the normalized id is not empty.
\<close>

theorem overall_stats_dedup:
  "total (overall_stats df csc csr is_conc id_col name_col)
     = (if col_present id_col df \<or> col_present name_col df
        then card (uniq_key id_col name_col ` set (rows df))
        else length (rows df))
   \<and> (\<not> (col_present id_col df \<or> col_present name_col df) \<longrightarrow>
        dedup_df df id_col name_col = df)
   \<and> (col_present id_col df \<or> col_present name_col df \<longrightarrow>
        rows (dedup_df df id_col name_col)
          = map (with_uniq id_col name_col)
              (drop_duplicates (uniq_key id_col name_col) [] (rows df))
        \<and> distinct (map (uniq_key id_col name_col)
              (drop_duplicates (uniq_key id_col name_col) [] (rows df)))
        \<and> (\<forall>pre r post. rows df = pre @ r # post \<longrightarrow>
             (if uniq_key id_col name_col r \<in> uniq_key id_col name_col ` set pre
              then drop_duplicates (uniq_key id_col name_col) [] (rows df)
                   = drop_duplicates (uniq_key id_col name_col) [] (pre @ post)
              else \<exists>rest. drop_duplicates (uniq_key id_col name_col) [] (rows df)
                   = drop_duplicates (uniq_key id_col name_col) [] pre @ r # rest)))
   \<and> (c \<noteq> [] \<and> n \<noteq> [] \<longrightarrow>
        uniq_key (Some c) (Some n) r
          = (if stats_norm_key (row_get r c) \<noteq> [] then stats_norm_key (row_get r c)
             else stats_norm_key (row_get r n)))
   \<and> (c \<noteq> [] \<longrightarrow> uniq_key (Some c) None r = stats_norm_key (row_get r c))
   \<and> (n \<noteq> [] \<longrightarrow> uniq_key None (Some n) r = stats_norm_key (row_get r n))
   \<and> uniq_key None None r = []
   \<and> stats_norm_key s = norm_key s
   \<and> (py_lower s = py_lower t \<longrightarrow> stats_norm_key s = stats_norm_key t)
   \<and> (c \<noteq> [] \<and> row_get r1 c = row_get r2 c \<and> stats_norm_key (row_get r1 c) \<noteq> [] \<longrightarrow>
        uniq_key (Some c) name_col r1 = uniq_key (Some c) name_col r2
        \<and> uniq_key (Some c) name_col r1 = stats_norm_key (row_get r1 c))"
proof (intro conjI)
  let ?key = "uniq_key id_col name_col"
  show "total (overall_stats df csc csr is_conc id_col name_col)
     = (if col_present id_col df \<or> col_present name_col df
        then card (?key ` set (rows df)) else length (rows df))"
  proof (cases "col_present id_col df \<or> col_present name_col df")
    case True
    then show ?thesis
      by (simp add: overall_stats_def Let_def dedup_df_rows drop_duplicates_length)
  next
    case False
    then show ?thesis
      by (simp add: overall_stats_def Let_def dedup_df_def)
  qed
  show "\<not> (col_present id_col df \<or> col_present name_col df) \<longrightarrow>
        dedup_df df id_col name_col = df"
    by (simp add: dedup_df_def)
  show "col_present id_col df \<or> col_present name_col df \<longrightarrow>
        rows (dedup_df df id_col name_col)
          = map (with_uniq id_col name_col) (drop_duplicates ?key [] (rows df))
        \<and> distinct (map ?key (drop_duplicates ?key [] (rows df)))
        \<and> (\<forall>pre r post. rows df = pre @ r # post \<longrightarrow>
             (if ?key r \<in> ?key ` set pre
              then drop_duplicates ?key [] (rows df) = drop_duplicates ?key [] (pre @ post)
              else \<exists>rest. drop_duplicates ?key [] (rows df)
                   = drop_duplicates ?key [] pre @ r # rest))"
  proof (intro impI conjI allI)
    assume "col_present id_col df \<or> col_present name_col df"
    then show "rows (dedup_df df id_col name_col)
          = map (with_uniq id_col name_col) (drop_duplicates ?key [] (rows df))"
      by (rule dedup_df_rows)
  next
    show "distinct (map ?key (drop_duplicates ?key [] (rows df)))"
      by (rule drop_duplicates_distinct)
  next
    fix pre r post
    assume r: "rows df = pre @ r # post"
    show "if ?key r \<in> ?key ` set pre
         then drop_duplicates ?key [] (rows df) = drop_duplicates ?key [] (pre @ post)
         else \<exists>rest. drop_duplicates ?key [] (rows df) = drop_duplicates ?key [] pre @ r # rest"
    proof (cases "?key r \<in> ?key ` set pre")
      case True
      then show ?thesis by (simp only: r drop_duplicates_later if_True)
    next
      case False
      from drop_duplicates_first [OF False, of post]
      have "drop_duplicates ?key [] (rows df)
            = drop_duplicates ?key [] pre @ r # drop_duplicates ?key (?key r # map ?key pre) post"
        by (simp only: r)
      with False show ?thesis by auto
    qed
  qed
  show "c \<noteq> [] \<and> n \<noteq> [] \<longrightarrow>
        uniq_key (Some c) (Some n) r
          = (if stats_norm_key (row_get r c) \<noteq> [] then stats_norm_key (row_get r c)
             else stats_norm_key (row_get r n))"
    by (simp add: uniq_key_both)
  show "c \<noteq> [] \<longrightarrow> uniq_key (Some c) None r = stats_norm_key (row_get r c)"
    by (simp add: uniq_key_def col_key_def Let_def)
  show "n \<noteq> [] \<longrightarrow> uniq_key None (Some n) r = stats_norm_key (row_get r n)"
    by (simp add: uniq_key_def col_key_def)
  show "uniq_key None None r = []"
    by (simp add: uniq_key_def col_key_def)
  show "stats_norm_key s = norm_key s"
    by (rule stats_norm_key_norm_key)
  show "py_lower s = py_lower t \<longrightarrow> stats_norm_key s = stats_norm_key t"
    by (rule impI) (rule stats_norm_key_caseless)
  show "c \<noteq> [] \<and> row_get r1 c = row_get r2 c \<and> stats_norm_key (row_get r1 c) \<noteq> [] \<longrightarrow>
        uniq_key (Some c) name_col r1 = uniq_key (Some c) name_col r2
        \<and> uniq_key (Some c) name_col r1 = stats_norm_key (row_get r1 c)"
    by (auto simp: uniq_key_def col_key_def)
qed

text \<open>
  The theorem at a frame of five rows: \<open>SVB_A\<close> named \<open>Ana\<close>, \<open>SVB_A\<close> again
  named \<open>Bia\<close>, and three rows without id named \<open>Bia\<close>, \<open>Caio\<close> and \<open>BIA\<close>.
  With the two columns given three characters are counted: the second row falls to the
  first by its id, whatever its name, and the fifth to the third by its name, which is
  the key of a row without id. Without the columns the five rows are counted.
\<close>

theorem overall_stats_dedup_witness:
  "total (overall_stats
      \<lparr>columns = [COL_FILE_ID, COL_NAME],
       rows = [[COL_FILE_ID \<mapsto> ascii ''SVB_A'', COL_NAME \<mapsto> ascii ''Ana''],
               [COL_FILE_ID \<mapsto> ascii ''SVB_A'', COL_NAME \<mapsto> ascii ''Bia''],
               [COL_FILE_ID \<mapsto> [], COL_NAME \<mapsto> ascii ''Bia''],
               [COL_FILE_ID \<mapsto> [], COL_NAME \<mapsto> ascii ''Caio''],
               [COL_FILE_ID \<mapsto> [], COL_NAME \<mapsto> ascii ''BIA'']]\<rparr>
      COL_STATUS_CONCEPT COL_STATUS_RIG is_concluido (Some COL_FILE_ID) (Some COL_NAME)) = 3
   \<and> total (overall_stats
      \<lparr>columns = [COL_FILE_ID, COL_NAME],
       rows = [[COL_FILE_ID \<mapsto> ascii ''SVB_A'', COL_NAME \<mapsto> ascii ''Ana''],
               [COL_FILE_ID \<mapsto> ascii ''SVB_A'', COL_NAME \<mapsto> ascii ''Bia''],
               [COL_FILE_ID \<mapsto> [], COL_NAME \<mapsto> ascii ''Bia''],
               [COL_FILE_ID \<mapsto> [], COL_NAME \<mapsto> ascii ''Caio''],
               [COL_FILE_ID \<mapsto> [], COL_NAME \<mapsto> ascii ''BIA'']]\<rparr>
      COL_STATUS_CONCEPT COL_STATUS_RIG is_concluido None None) = 5
   \<and> map (\<lambda>r. (row_get r COL_FILE_ID, row_get r COL_NAME, row_get r COL_UNIQ))
       (rows (dedup_df
          \<lparr>columns = [COL_FILE_ID, COL_NAME],
           rows = [[COL_FILE_ID \<mapsto> ascii ''SVB_A'', COL_NAME \<mapsto> ascii ''Ana''],
                   [COL_FILE_ID \<mapsto> ascii ''SVB_A'', COL_NAME \<mapsto> ascii ''Bia''],
                   [COL_FILE_ID \<mapsto> [], COL_NAME \<mapsto> ascii ''Bia''],
                   [COL_FILE_ID \<mapsto> [], COL_NAME \<mapsto> ascii ''Caio''],
                   [COL_FILE_ID \<mapsto> [], COL_NAME \<mapsto> ascii ''BIA'']]\<rparr>
          (Some COL_FILE_ID) (Some COL_NAME)))
     = [(ascii ''SVB_A'', ascii ''Ana'', ascii ''svba''),
        ([], ascii ''Bia'', ascii ''bia''),
        ([], ascii ''Caio'', ascii ''caio'')]
   \<and> uniq_key (Some COL_FILE_ID) (Some COL_NAME)
        [COL_FILE_ID \<mapsto> ascii ''SVB_A'', COL_NAME \<mapsto> ascii ''Bia''] = ascii ''svba''
   \<and> uniq_key (Some COL_FILE_ID) (Some COL_NAME)
        [COL_FILE_ID \<mapsto> [], COL_NAME \<mapsto> ascii ''BIA''] = ascii ''bia''
   \<and> uniq_key (Some COL_FILE_ID) (Some COL_NAME)
        [COL_FILE_ID \<mapsto> ascii ''SVB_A'', COL_NAME \<mapsto> ascii ''Ana'']
     = uniq_key (Some COL_FILE_ID) (Some COL_NAME)
        [COL_FILE_ID \<mapsto> ascii ''SVB_A'', COL_NAME \<mapsto> ascii ''Bia'']
   \<and> uniq_key (Some COL_FILE_ID) None
        [COL_FILE_ID \<mapsto> [], COL_NAME \<mapsto> ascii ''BIA''] = []
   \<and> uniq_key None (Some COL_NAME)
        [COL_FILE_ID \<mapsto> ascii ''SVB_A'', COL_NAME \<mapsto> ascii ''Bia''] = ascii ''bia''
   \<and> stats_norm_key (ascii ''BIA'') = stats_norm_key (ascii ''Bia'')
   \<and> rows (dedup_df
        \<lparr>columns = [COL_FILE_ID, COL_NAME],
         rows = [[COL_FILE_ID \<mapsto> ascii ''SVB_A'', COL_NAME \<mapsto> ascii ''Ana''],
                 [COL_FILE_ID \<mapsto> ascii ''SVB_A'', COL_NAME \<mapsto> ascii ''Bia''],
                 [COL_FILE_ID \<mapsto> [], COL_NAME \<mapsto> ascii ''Bia''],
                 [COL_FILE_ID \<mapsto> [], COL_NAME \<mapsto> ascii ''Caio''],
                 [COL_FILE_ID \<mapsto> [], COL_NAME \<mapsto> ascii ''BIA'']]\<rparr> None None)
     = [[COL_FILE_ID \<mapsto> ascii ''SVB_A'', COL_NAME \<mapsto> ascii ''Ana''],
        [COL_FILE_ID \<mapsto> ascii ''SVB_A'', COL_NAME \<mapsto> ascii ''Bia''],
        [COL_FILE_ID \<mapsto> [], COL_NAME \<mapsto> ascii ''Bia''],
        [COL_FILE_ID \<mapsto> [], COL_NAME \<mapsto> ascii ''Caio''],
        [COL_FILE_ID \<mapsto> [], COL_NAME \<mapsto> ascii ''BIA'']]"
proof -
  let ?r1 = "[COL_FILE_ID \<mapsto> ascii ''SVB_A'', COL_NAME \<mapsto> ascii ''Ana'']"
  let ?r2 = "[COL_FILE_ID \<mapsto> ascii ''SVB_A'', COL_NAME \<mapsto> ascii ''Bia'']"
  let ?r3 = "[COL_FILE_ID \<mapsto> [], COL_NAME \<mapsto> ascii ''Bia'']"
  let ?r4 = "[COL_FILE_ID \<mapsto> [], COL_NAME \<mapsto> ascii ''Caio'']"
  let ?r5 = "[COL_FILE_ID \<mapsto> [], COL_NAME \<mapsto> ascii ''BIA'']"
  let ?df = "\<lparr>columns = [COL_FILE_ID, COL_NAME], rows = [?r1, ?r2, ?r3, ?r4, ?r5]\<rparr>"
  let ?key = "uniq_key (Some COL_FILE_ID) (Some COL_NAME)"
  have ne: "COL_FILE_ID \<noteq> [] \<and> COL_NAME \<noteq> []" by code_simp
  then have h: "col_present (Some COL_FILE_ID) ?df \<or> col_present (Some COL_NAME) ?df"
    by (simp add: col_present_def)
  have h0: "\<not> (col_present None ?df \<or> col_present None ?df)"
    by (simp add: col_present_def)
  note t = overall_stats_dedup [where id_col = "Some COL_FILE_ID" and name_col = "Some COL_NAME"
      and df = ?df and csc = COL_STATUS_CONCEPT and csr = COL_STATUS_RIG
      and is_conc = is_concluido and c = COL_FILE_ID and n = COL_NAME]
  note t0 = overall_stats_dedup [where id_col = None and name_col = None
      and df = ?df and csc = COL_STATUS_CONCEPT and csr = COL_STATUS_RIG
      and is_conc = is_concluido]
  have cn: "COL_FILE_ID \<noteq> COL_NAME" by code_simp
  have cd: "card (?key ` set [?r1, ?r2, ?r3, ?r4, ?r5]) = 3"
    by code_simp
  have "total (overall_stats ?df COL_STATUS_CONCEPT COL_STATUS_RIG
      is_concluido (Some COL_FILE_ID) (Some COL_NAME)) = card (?key ` set (rows ?df))"
    using t [THEN conjunct1] h by (simp only: if_True)
  then have total: "total (overall_stats ?df COL_STATUS_CONCEPT COL_STATUS_RIG
      is_concluido (Some COL_FILE_ID) (Some COL_NAME)) = 3"
    using cd by simp
  have "total (overall_stats ?df COL_STATUS_CONCEPT COL_STATUS_RIG is_concluido None None)
      = length (rows ?df)"
    using t0 [THEN conjunct1] h0 by (simp only: if_False)
  then have total0: "total (overall_stats ?df COL_STATUS_CONCEPT COL_STATUS_RIG
      is_concluido None None) = 5"
    by simp
  have kept: "rows (dedup_df ?df (Some COL_FILE_ID) (Some COL_NAME))
      = map (with_uniq (Some COL_FILE_ID) (Some COL_NAME)) (drop_duplicates ?key [] (rows ?df))"
    using t [THEN conjunct2, THEN conjunct2, THEN conjunct1, rule_format, OF h]
    by (rule conjunct1)
  have ev: "map (\<lambda>r. (row_get r COL_FILE_ID, row_get r COL_NAME, row_get r COL_UNIQ))
       (map (with_uniq (Some COL_FILE_ID) (Some COL_NAME))
          (drop_duplicates ?key [] [?r1, ?r2, ?r3, ?r4, ?r5]))
     = [(ascii ''SVB_A'', ascii ''Ana'', ascii ''svba''),
        ([], ascii ''Bia'', ascii ''bia''),
        ([], ascii ''Caio'', ascii ''caio'')]"
    by code_simp
  have list: "map (\<lambda>r. (row_get r COL_FILE_ID, row_get r COL_NAME, row_get r COL_UNIQ))
       (rows (dedup_df ?df (Some COL_FILE_ID) (Some COL_NAME)))
     = [(ascii ''SVB_A'', ascii ''Ana'', ascii ''svba''),
        ([], ascii ''Bia'', ascii ''bia''),
        ([], ascii ''Caio'', ascii ''caio'')]"
    using ev by (simp only: kept dataframe.simps)
  have k2: "?key ?r2 = (if stats_norm_key (row_get ?r2 COL_FILE_ID) \<noteq> []
      then stats_norm_key (row_get ?r2 COL_FILE_ID) else stats_norm_key (row_get ?r2 COL_NAME))"
    using overall_stats_dedup [where c = COL_FILE_ID and n = COL_NAME and r = ?r2,
        THEN conjunct2, THEN conjunct2, THEN conjunct2, THEN conjunct1] ne
    by (rule mp)
  have k5: "?key ?r5 = (if stats_norm_key (row_get ?r5 COL_FILE_ID) \<noteq> []
      then stats_norm_key (row_get ?r5 COL_FILE_ID) else stats_norm_key (row_get ?r5 COL_NAME))"
    using overall_stats_dedup [where c = COL_FILE_ID and n = COL_NAME and r = ?r5,
        THEN conjunct2, THEN conjunct2, THEN conjunct2, THEN conjunct1] ne
    by (rule mp)
  have e2: "(if stats_norm_key (row_get ?r2 COL_FILE_ID) \<noteq> []
      then stats_norm_key (row_get ?r2 COL_FILE_ID) else stats_norm_key (row_get ?r2 COL_NAME))
      = ascii ''svba''"
    by code_simp
  have e5: "(if stats_norm_key (row_get ?r5 COL_FILE_ID) \<noteq> []
      then stats_norm_key (row_get ?r5 COL_FILE_ID) else stats_norm_key (row_get ?r5 COL_NAME))
      = ascii ''bia''"
    by code_simp
  have g: "COL_FILE_ID \<noteq> [] \<and> row_get ?r1 COL_FILE_ID = row_get ?r2 COL_FILE_ID
      \<and> stats_norm_key (row_get ?r1 COL_FILE_ID) \<noteq> []"
    by code_simp
  have same: "?key ?r1 = ?key ?r2"
    using overall_stats_dedup [where c = COL_FILE_ID and name_col = "Some COL_NAME"
        and ?r1.0 = ?r1 and ?r2.0 = ?r2,
        THEN conjunct2, THEN conjunct2, THEN conjunct2, THEN conjunct2, THEN conjunct2,
        THEN conjunct2, THEN conjunct2, THEN conjunct2, THEN conjunct2, rule_format, OF g]
    by (rule conjunct1)
  have "uniq_key (Some COL_FILE_ID) None ?r5 = stats_norm_key (row_get ?r5 COL_FILE_ID)"
    using overall_stats_dedup [where c = COL_FILE_ID and r = ?r5,
        THEN conjunct2, THEN conjunct2, THEN conjunct2, THEN conjunct2, THEN conjunct1]
      ne [THEN conjunct1]
    by (rule mp)
  moreover have "stats_norm_key (row_get ?r5 COL_FILE_ID) = []" by code_simp
  ultimately have s1: "uniq_key (Some COL_FILE_ID) None ?r5 = []" by (rule trans)
  have "uniq_key None (Some COL_NAME) ?r2 = stats_norm_key (row_get ?r2 COL_NAME)"
    using overall_stats_dedup [where n = COL_NAME and r = ?r2,
        THEN conjunct2, THEN conjunct2, THEN conjunct2, THEN conjunct2, THEN conjunct2,
        THEN conjunct1]
      ne [THEN conjunct2]
    by (rule mp)
  moreover have "stats_norm_key (row_get ?r2 COL_NAME) = ascii ''bia''" by code_simp
  ultimately have s2: "uniq_key None (Some COL_NAME) ?r2 = ascii ''bia''" by (rule trans)
  have lo: "py_lower (ascii ''BIA'') = py_lower (ascii ''Bia'')" by code_simp
  have s3: "stats_norm_key (ascii ''BIA'') = stats_norm_key (ascii ''Bia'')"
    using overall_stats_dedup [where s = "ascii ''BIA''" and t = "ascii ''Bia''",
        THEN conjunct2, THEN conjunct2, THEN conjunct2, THEN conjunct2, THEN conjunct2,
        THEN conjunct2, THEN conjunct2, THEN conjunct2, THEN conjunct1] lo
    by (rule mp)
  have "dedup_df ?df None None = ?df"
    using t0 [THEN conjunct2, THEN conjunct1] h0 by (rule mp)
  then have s4: "rows (dedup_df ?df None None) = [?r1, ?r2, ?r3, ?r4, ?r5]"
    by (simp only: dataframe.simps)
  from total total0 list k2 [unfolded e2] k5 [unfolded e5] same s1 s2 s3 s4 show ?thesis
    by (intro conjI)
qed

text \<open>
  Two rows with the same file id that is not empty are not always one character: the id
  \<open>-\<close> has an empty normal form, so the rows named \<open>Ana\<close> and \<open>Bia\<close> keep their two
  keys and both are counted by the call of the page. And with the default arguments no
  column is given, nothing is deduplicated, and two equal rows of \<open>SVB_A\<close> count twice
  although all rows have one key.
\<close>

theorem overall_stats_same_id_counterexample:
  "row_get [COL_FILE_ID \<mapsto> ascii ''-'', COL_NAME \<mapsto> ascii ''Ana''] COL_FILE_ID
     = row_get [COL_FILE_ID \<mapsto> ascii ''-'', COL_NAME \<mapsto> ascii ''Bia''] COL_FILE_ID
   \<and> row_get [COL_FILE_ID \<mapsto> ascii ''-'', COL_NAME \<mapsto> ascii ''Ana''] COL_FILE_ID \<noteq> []
   \<and> total (overall_stats
        \<lparr>columns = [COL_FILE_ID, COL_NAME],
         rows = [[COL_FILE_ID \<mapsto> ascii ''-'', COL_NAME \<mapsto> ascii ''Ana''],
                 [COL_FILE_ID \<mapsto> ascii ''-'', COL_NAME \<mapsto> ascii ''Bia'']]\<rparr>
        COL_STATUS_CONCEPT COL_STATUS_RIG is_concluido (Some COL_FILE_ID) (Some COL_NAME)) = 2
   \<and> total (overall_stats
        \<lparr>columns = [COL_FILE_ID, COL_NAME],
         rows = [[COL_FILE_ID \<mapsto> ascii ''SVB_A'', COL_NAME \<mapsto> ascii ''Ana''],
                 [COL_FILE_ID \<mapsto> ascii ''SVB_A'', COL_NAME \<mapsto> ascii ''Ana'']]\<rparr>
        COL_STATUS_CONCEPT COL_STATUS_RIG is_concluido None None) = 2
   \<and> card (uniq_key None None `
        set [[COL_FILE_ID \<mapsto> ascii ''SVB_A'', COL_NAME \<mapsto> ascii ''Ana''],
             [COL_FILE_ID \<mapsto> ascii ''SVB_A'', COL_NAME \<mapsto> ascii ''Ana'']]) = 1"
  by (intro conjI; code_simp)

section \<open>The status classifier\<close>

lemma status_examples:
  "status_kind lit_Concluido = ascii ''done''"
  "status_kind (ascii ''Em Andamento'') = ascii ''wip''"
  "status_kind (ascii ''Aguardando aprovacao'') = ascii ''other''"
  by code_simp+

text \<open>
  C8. \<open>_status_kind\<close> always answers one of \<open>done\<close>, \<open>review\<close>, \<open>wip\<close>, \<open>todo\<close>
  and \<open>other\<close>, and the keyword sets are tried in this order on the safe key of the
  text: the first kind whose keyword the key contains wins, and a key with none of the
  keywords is \<open>other\<close>. \<open>Concluido\<close> (with U+00ED) is \<open>done\<close>, \<open>Em Andamento\<close> is
  \<open>wip\<close>, the kind of work in progress.
\<close>

theorem status_kind_taxonomy:
  "status_kind s \<in> set (map ascii [''done'', ''review'', ''wip'', ''todo'', ''other''])
   \<and> (py_in (ascii ''concluido'') (norm_lt s) \<longrightarrow> status_kind s = ascii ''done'')
   \<and> (\<not> py_in (ascii ''concluido'') (norm_lt s) \<and> any_in review_keys (norm_lt s) \<longrightarrow>
        status_kind s = ascii ''review'')
   \<and> (\<not> py_in (ascii ''concluido'') (norm_lt s) \<and> \<not> any_in review_keys (norm_lt s)
        \<and> any_in wip_keys (norm_lt s) \<longrightarrow> status_kind s = ascii ''wip'')
   \<and> (\<not> py_in (ascii ''concluido'') (norm_lt s) \<and> \<not> any_in review_keys (norm_lt s)
        \<and> \<not> any_in wip_keys (norm_lt s) \<and> any_in todo_keys (norm_lt s) \<longrightarrow>
        status_kind s = ascii ''todo'')
   \<and> (\<not> py_in (ascii ''concluido'') (norm_lt s) \<and> \<not> any_in review_keys (norm_lt s)
        \<and> \<not> any_in wip_keys (norm_lt s) \<and> \<not> any_in todo_keys (norm_lt s) \<longrightarrow>
        status_kind s = ascii ''other'')
   \<and> status_kind lit_Concluido = ascii ''done''
   \<and> status_kind (ascii ''Em Andamento'') = ascii ''wip''
   \<and> status_kind (ascii ''Aguardando aprovacao'') = ascii ''other''"
proof -
  have m: "status_kind s \<in> set (map ascii [''done'', ''review'', ''wip'', ''todo'', ''other''])"
    unfolding status_kind_def Let_def by simp
  have p: "py_in (ascii ''concluido'') (norm_lt s) \<longrightarrow> status_kind s = ascii ''done''"
    "\<not> py_in (ascii ''concluido'') (norm_lt s) \<and> any_in review_keys (norm_lt s) \<longrightarrow>
        status_kind s = ascii ''review''"
    "\<not> py_in (ascii ''concluido'') (norm_lt s) \<and> \<not> any_in review_keys (norm_lt s)
        \<and> any_in wip_keys (norm_lt s) \<longrightarrow> status_kind s = ascii ''wip''"
    "\<not> py_in (ascii ''concluido'') (norm_lt s) \<and> \<not> any_in review_keys (norm_lt s)
        \<and> \<not> any_in wip_keys (norm_lt s) \<and> any_in todo_keys (norm_lt s) \<longrightarrow>
        status_kind s = ascii ''todo''"
    "\<not> py_in (ascii ''concluido'') (norm_lt s) \<and> \<not> any_in review_keys (norm_lt s)
        \<and> \<not> any_in wip_keys (norm_lt s) \<and> \<not> any_in todo_keys (norm_lt s) \<longrightarrow>
        status_kind s = ascii ''other''"
    unfolding status_kind_def Let_def by simp_all
  from m p status_examples show ?thesis by (intro conjI)
qed

text \<open>
  The theorem at five labels, one per kind: a label with both the done and the review
  keyword is \<open>done\<close>, one with the review and the production keyword is \<open>review\<close>.
\<close>

theorem status_kind_taxonomy_witness:
  "status_kind (lit_Concluido @ ascii '' (em revisao)'') = ascii ''done''
   \<and> status_kind (ascii ''Revisao da producao'') = ascii ''review''
   \<and> status_kind (ascii ''Em Andamento'') = ascii ''wip''
   \<and> status_kind (ascii ''N'' @ [227] @ ascii ''o iniciado'') = ascii ''todo''
   \<and> status_kind (ascii ''Aguardando aprovacao'') = ascii ''other''"
proof -
  have h1: "py_in (ascii ''concluido'') (norm_lt (lit_Concluido @ ascii '' (em revisao)''))"
    by code_simp
  have h2: "\<not> py_in (ascii ''concluido'') (norm_lt (ascii ''Revisao da producao''))
      \<and> any_in review_keys (norm_lt (ascii ''Revisao da producao''))"
    by code_simp
  have h3: "\<not> py_in (ascii ''concluido'') (norm_lt (ascii ''Em Andamento''))
      \<and> \<not> any_in review_keys (norm_lt (ascii ''Em Andamento''))
      \<and> any_in wip_keys (norm_lt (ascii ''Em Andamento''))"
    by code_simp
  have h4: "\<not> py_in (ascii ''concluido'') (norm_lt (ascii ''N'' @ [227] @ ascii ''o iniciado''))
      \<and> \<not> any_in review_keys (norm_lt (ascii ''N'' @ [227] @ ascii ''o iniciado''))
      \<and> \<not> any_in wip_keys (norm_lt (ascii ''N'' @ [227] @ ascii ''o iniciado''))
      \<and> any_in todo_keys (norm_lt (ascii ''N'' @ [227] @ ascii ''o iniciado''))"
    by code_simp
  have h5: "\<not> py_in (ascii ''concluido'') (norm_lt (ascii ''Aguardando aprovacao''))
      \<and> \<not> any_in review_keys (norm_lt (ascii ''Aguardando aprovacao''))
      \<and> \<not> any_in wip_keys (norm_lt (ascii ''Aguardando aprovacao''))
      \<and> \<not> any_in todo_keys (norm_lt (ascii ''Aguardando aprovacao''))"
    by code_simp
  have a1: "status_kind (lit_Concluido @ ascii '' (em revisao)'') = ascii ''done''"
    using status_kind_taxonomy [of "lit_Concluido @ ascii '' (em revisao)''",
      THEN conjunct2, THEN conjunct1] h1
    by (rule mp)
  have a2: "status_kind (ascii ''Revisao da producao'') = ascii ''review''"
    using status_kind_taxonomy [of "ascii ''Revisao da producao''",
      THEN conjunct2, THEN conjunct2, THEN conjunct1] h2
    by (rule mp)
  have a3: "status_kind (ascii ''Em Andamento'') = ascii ''wip''"
    using status_kind_taxonomy [of "ascii ''Em Andamento''",
      THEN conjunct2, THEN conjunct2, THEN conjunct2, THEN conjunct1] h3
    by (rule mp)
  have a4: "status_kind (ascii ''N'' @ [227] @ ascii ''o iniciado'') = ascii ''todo''"
    using status_kind_taxonomy [of "ascii ''N'' @ [227] @ ascii ''o iniciado''",
      THEN conjunct2, THEN conjunct2, THEN conjunct2, THEN conjunct2, THEN conjunct1] h4
    by (rule mp)
  have a5: "status_kind (ascii ''Aguardando aprovacao'') = ascii ''other''"
    using status_kind_taxonomy [of "ascii ''Aguardando aprovacao''",
      THEN conjunct2, THEN conjunct2, THEN conjunct2, THEN conjunct2, THEN conjunct2,
      THEN conjunct1] h5
    by (rule mp)
  from a1 a2 a3 a4 a5 show ?thesis by (intro conjI)
qed

section \<open>The image resolver\<close>

























text \<open>
  The keys of an index built by \<open>index_images\<close> are safe keys, so they hold no
  underscore, and the three \<open>replace\<close> calls of the name steps, which look for
  \<open>svb_rig_\<close>, \<open>svb_per_\<close> and \<open>svb_\<close>, leave such a key as it is.
\<close>

lemma py_replace_absent:
  "c0 \<in> set old \<Longrightarrow> c0 \<notin> set s \<Longrightarrow> py_replace old new s = s"
proof (induction s)
  case Nil
  then show ?case by auto
next
  case (Cons c cs)
  have "\<not> startswith (c # cs) old"
  proof
    assume "startswith (c # cs) old"
    then have "set old \<subseteq> set (c # cs)"
      unfolding startswith_def by (metis set_take_subset)
    with Cons.prems show False by auto
  qed
  moreover from Cons.prems have "old \<noteq> []" by auto
  ultimately show ?case using Cons by simp
qed

lemma file_name_parts_safe_key: "95 \<notin> set k \<Longrightarrow> file_name_parts k = k"
proof -
  assume k: "95 \<notin> set k"
  have u: "95 \<in> set (ascii ''svb_rig_'')" "95 \<in> set (ascii ''svb_per_'')"
    "95 \<in> set (ascii ''svb_'')"
    by code_simp+
  from k u show ?thesis
    by (simp add: file_name_parts_def py_replace_absent)
qed

lemma index_images_loop_keys:
  "\<forall>k \<in> fst ` set idx. 95 \<notin> set k \<Longrightarrow>
   \<forall>k \<in> fst ` set (index_images_loop idx files). 95 \<notin> set k"
proof (induction files arbitrary: idx)
  case Nil
  then show ?case by simp
next
  case (Cons f fs)
  have key: "95 \<notin> set (norm_key (stem f))"
    by (auto dest: norm_key_az09 simp: is_az09_def)
  from Cons.prems key
  have a: "\<forall>k \<in> fst ` set (idx @ [(norm_key (stem f), path_str f)]). 95 \<notin> set k"
    by auto
  from Cons.IH [OF Cons.prems] Cons.IH [OF a] show ?case
    by (simp add: Let_def)
qed

lemma index_images_keys: "(k, p) \<in> set (index_images d) \<Longrightarrow> 95 \<notin> set k"
proof (cases d)
  case None
  then show "(k, p) \<in> set (index_images d) \<Longrightarrow> 95 \<notin> set k"
    by (simp add: index_images_def)
next
  case (Some files)
  have "\<forall>k \<in> fst ` set (index_images_loop [] files). 95 \<notin> set k"
    by (rule index_images_loop_keys) simp
  with Some show "(k, p) \<in> set (index_images d) \<Longrightarrow> 95 \<notin> set k"
    by (force simp: index_images_def)
qed

text \<open>
  C4: what the code does at the name \<open>Bia\<close> and an empty id, for an index that maps
  the key of \<open>SVB_RIG_Bia\<close>, of \<open>SVB_PER_Bia\<close> or of \<open>SVB_Bia\<close> to a path. The
  key is compared whole with \<open>bia\<close>, the exact step finds nothing, and the name is too
  short for the later steps: the result is the empty string, not the path.
\<close>

theorem find_image_for_short_name:
  "file_name_parts (norm_key (ascii ''SVB_RIG_'' @ ascii ''Bia'')) = ascii ''svbrigbia''
   \<and> exact_step [(norm_key (ascii ''SVB_RIG_'' @ ascii ''Bia''),
                   ascii ''personagens/SVB_RIG_BIA.png'')] (ascii ''Bia'') = None
   \<and> find_image_for [(norm_key (ascii ''SVB_RIG_'' @ ascii ''Bia''),
                       ascii ''personagens/SVB_RIG_BIA.png'')] [] (ascii ''Bia'') = []
   \<and> find_image_for [(norm_key (ascii ''SVB_PER_'' @ ascii ''Bia''),
                       ascii ''personagens/SVB_PER_BIA.png'')] [] (ascii ''Bia'') = []
   \<and> find_image_for [(norm_key (ascii ''SVB_'' @ ascii ''Bia''),
                       ascii ''personagens/SVB_BIA.png'')] [] (ascii ''Bia'') = []"
  by code_simp

section \<open>Reconciling the headers\<close>

text \<open>
  The dictionary \<open>ren\<close> holds, for every column that a branch takes, the target of
  that column, so renaming with it maps each header by \<open>header_target\<close>.
\<close>

lemma build_ren_apply:
  "build_ren ren cols c =
     (if c \<in> set cols \<and> header_target c \<noteq> None then header_target c else ren c)"
  by (induction cols arbitrary: ren) (auto split: option.splits)

lemma rename_headers_map:
  "rename_headers_for_schema cols =
     map (\<lambda>c. case header_target c of Some t \<Rightarrow> t | None \<Rightarrow> c) cols"
  unfolding rename_headers_for_schema_def Let_def
  by (rule map_cong) (auto simp: build_ren_apply split: option.splits)

lemma canonical_targets:
  "header_target COL_EP = Some COL_EP"
  "header_target COL_NAME = Some COL_NAME"
  "header_target COL_FILE_ID = Some COL_FILE_ID"
  "header_target COL_RIG_LINK = Some COL_RIG_LINK"
  "header_target COL_SYNCSKETCH = None"
  "header_target COL_CONCEPT_LINK = Some COL_CONCEPT_LINK"
  "header_target COL_URG_CONCEPT = None"
  "header_target COL_STATUS_CONCEPT = None"
  "header_target COL_RESP_CONCEPT = Some COL_RESP_RIG"
  "header_target COL_URG_RIG = None"
  "header_target COL_STATUS_RIG = None"
  "header_target COL_RESP_RIG = Some COL_RESP_RIG"
  "header_target COL_COMMENTS = Some COL_COMMENTS"
  "header_target COL_DATE_CONCEPT = None"
  "header_target COL_DATE_RIG = None"
  by code_simp+

lemma resp_columns_differ: "COL_RESP_CONCEPT \<noteq> COL_RESP_RIG"
  by code_simp

text \<open>
  C1: what the code does on the fifteen canonical headers. Fourteen stay as they are; the
  ninth, the column of the Concept responsible, is renamed to the column of the Rig
  responsible, since its safe key \<open>responsavel\<close> without the \<open>.1\<close> suffix is taken by the
  branch of the new layout. The output then holds that name twice and differs from the input.
\<close>

theorem canonical_headers_renamed:
  "rename_headers_for_schema canonical_headers =
     [COL_EP, COL_NAME, COL_FILE_ID, COL_RIG_LINK, COL_SYNCSKETCH, COL_CONCEPT_LINK,
      COL_URG_CONCEPT, COL_STATUS_CONCEPT, COL_RESP_RIG, COL_URG_RIG, COL_STATUS_RIG,
      COL_RESP_RIG, COL_COMMENTS, COL_DATE_CONCEPT, COL_DATE_RIG]
   \<and> rename_headers_for_schema canonical_headers \<noteq> canonical_headers
   \<and> rename_headers_for_schema [COL_RESP_CONCEPT] = [COL_RESP_RIG]"
proof -
  have a: "rename_headers_for_schema canonical_headers =
     [COL_EP, COL_NAME, COL_FILE_ID, COL_RIG_LINK, COL_SYNCSKETCH, COL_CONCEPT_LINK,
      COL_URG_CONCEPT, COL_STATUS_CONCEPT, COL_RESP_RIG, COL_URG_RIG, COL_STATUS_RIG,
      COL_RESP_RIG, COL_COMMENTS, COL_DATE_CONCEPT, COL_DATE_RIG]"
    by (simp add: rename_headers_map canonical_headers_def canonical_targets)
  have b: "rename_headers_for_schema canonical_headers \<noteq> canonical_headers"
    unfolding a by (simp add: canonical_headers_def resp_columns_differ [symmetric])
  have c: "rename_headers_for_schema [COL_RESP_CONCEPT] = [COL_RESP_RIG]"
    by (simp add: rename_headers_map canonical_targets)
  from a b c show ?thesis by (intro conjI)
qed

section \<open>The best id of a group\<close>

lemma normalize_candidates_prefix: "\<exists>ys. normalize_candidates acc cids = acc @ ys"
proof (induction cids arbitrary: acc)
  case Nil
  show ?case by simp
next
  case (Cons cid cids)
  from Cons [of acc] Cons [of "acc @ [std_svb_id cid]"] show ?case
    by (auto simp: Let_def)
qed

lemma std_svb_id_nonempty: "s \<noteq> [] \<Longrightarrow> std_svb_id s \<noteq> []"
proof (cases "svb_search False s")
  case None
  assume "s \<noteq> []"
  with None show ?thesis by (simp add: std_svb_id_def)
next
  case (Some grp)
  have "ascii ''SVB_'' \<noteq> []" by code_simp
  with Some show ?thesis by (simp add: std_svb_id_def)
qed

text \<open>
  Whenever the id of the group is not blank, it is the first candidate and the result is
  its own normal form: the links, the comments and the name are never consulted, whether
  or not the id has the shape of an id.
\<close>

lemma best_id_original_wins:
  "nonblank pid \<Longrightarrow> best_id pid nome link_cells sync_cells comment_cells = std_svb_id pid"
proof -
  assume nb: "nonblank pid"
  then have "pid \<noteq> []" by (auto simp: nonblank_def py_strip_def)
  then have ne: "std_svb_id pid \<noteq> []" by (rule std_svb_id_nonempty)
  from nb obtain rest where
    c: "candidate_ids pid nome link_cells sync_cells comment_cells = pid # rest"
    by (simp add: candidate_ids_def Let_def)
  from ne have "normalize_candidates [] (pid # rest) = normalize_candidates [std_svb_id pid] rest"
    by (simp add: Let_def)
  moreover obtain ys where "normalize_candidates [std_svb_id pid] rest = [std_svb_id pid] @ ys"
    using normalize_candidates_prefix by blast
  ultimately show ?thesis by (simp add: best_id_def c)
qed

text \<open>
  The loop over the candidates keeps the non-empty normal forms in their order, so its
  first element is the first candidate whose normal form is not empty.
\<close>

lemma normalize_candidates_first:
  "(case normalize_candidates [] cids of [] \<Rightarrow> d | b # bs \<Rightarrow> b) =
   (case filter (\<lambda>x. x \<noteq> []) (map std_svb_id cids) of [] \<Rightarrow> d | b # bs \<Rightarrow> b)"
proof (induction cids)
  case Nil
  show ?case by simp
next
  case (Cons cid cids)
  show ?case
  proof (cases "std_svb_id cid = []")
    case True
    with Cons show ?thesis by (simp add: Let_def)
  next
    case False
    obtain ys where "normalize_candidates [std_svb_id cid] cids = [std_svb_id cid] @ ys"
      using normalize_candidates_prefix by blast
    with False show ?thesis by (simp add: Let_def)
  qed
qed

lemma unshaped_example:
  "svb_search False (ascii ''MURIEL'') = None"
  "nonblank (ascii ''MURIEL'')"
  "extract_svb_id (ascii ''https://drive.example/file/SVB_MURIEL.png'') = ascii ''SVB_MURIEL''"
  by code_simp+

text \<open>
  What the pattern finds: a prefix \<open>SVB\<close>, \<open>RIG\<close> or \<open>PER\<close> in any letter case, an
  underscore, and the group, a non-empty run of ASCII letters and digits after which the
  text ends or goes on with a character that is not a word character.
\<close>

lemma underscore: "ascii ''_'' = [95]"
  by code_simp

lemma svb_prefix: "ascii ''SVB_'' = ascii ''SVB'' @ [95]" "length (ascii ''SVB'') = 3"
  "py_lower (ascii ''SVB'') \<in> set (map ascii [''svb'', ''rig'', ''per''])"
  by code_simp+

lemma svb_match_here_Some:
  assumes "svb_match_here s = Some g"
  shows "\<exists>p post. s = p @ 95 # g @ post \<and> length p = 3
           \<and> py_lower p \<in> set (map ascii [''svb'', ''rig'', ''per''])
           \<and> g \<noteq> [] \<and> (\<forall>c \<in> set g. is_alnum_ascii c)
           \<and> (case post of [] \<Rightarrow> True | c # cs \<Rightarrow> \<not> is_word c)"
proof -
  let ?S = "set (map ascii [''svb'', ''rig'', ''per''])"
  have c: "py_lower (take 3 s) \<in> ?S \<and> length s > 3 \<and> s ! 3 = 95"
  proof (rule ccontr)
    assume "\<not> (py_lower (take 3 s) \<in> ?S \<and> length s > 3 \<and> s ! 3 = 95)"
    then have "svb_match_here s = None"
      unfolding svb_match_here_def by (simp only: if_False)
    with assms show False by simp
  qed
  then have "svb_match_here s
      = (let grp = takeWhile is_alnum_ascii (drop 4 s);
             after = dropWhile is_alnum_ascii (drop 4 s)
         in if grp \<noteq> [] \<and> (case after of [] \<Rightarrow> True | c # cs \<Rightarrow> \<not> is_word c)
            then Some grp else None)"
    unfolding svb_match_here_def by (simp only: simp_thms if_True)
  with assms have g: "g = takeWhile is_alnum_ascii (drop 4 s)" "g \<noteq> []"
       "case dropWhile is_alnum_ascii (drop 4 s) of [] \<Rightarrow> True | c # cs \<Rightarrow> \<not> is_word c"
    by (auto simp: Let_def split: if_splits)
  from c have "drop 3 s = s ! 3 # drop (Suc 3) s"
    by (intro Cons_nth_drop_Suc [symmetric]) simp
  with c have d: "drop 3 s = 95 # drop 4 s" by simp
  have "s = take 3 s @ drop 3 s" by simp
  also have "\<dots> = take 3 s @ 95 # g @ dropWhile is_alnum_ascii (drop 4 s)"
    by (simp only: d g(1) takeWhile_dropWhile_id)
  finally have "s = take 3 s @ 95 # g @ dropWhile is_alnum_ascii (drop 4 s)" .
  moreover from c have "length (take 3 s) = 3" by simp
  moreover have "\<forall>c \<in> set g. is_alnum_ascii c"
    unfolding g(1) by (auto dest: set_takeWhileD)
  ultimately show ?thesis using c g(2,3) by blast
qed

lemma svb_search_Some:
  "svb_search pw s = Some g \<Longrightarrow>
   \<exists>pre p post. s = pre @ p @ 95 # g @ post \<and> length p = 3
      \<and> py_lower p \<in> set (map ascii [''svb'', ''rig'', ''per''])
      \<and> g \<noteq> [] \<and> (\<forall>c \<in> set g. is_alnum_ascii c)
      \<and> (case post of [] \<Rightarrow> True | c # cs \<Rightarrow> \<not> is_word c)"
proof (induction s arbitrary: pw)
  case Nil
  then show ?case by simp
next
  case (Cons c cs)
  show ?case
  proof (cases "\<not> pw \<and> svb_match_here (c # cs) \<noteq> None")
    case True
    with Cons.prems have "svb_match_here (c # cs) = Some g" by auto
    from svb_match_here_Some [OF this] obtain p post where
      "c # cs = [] @ p @ 95 # g @ post \<and> length p = 3
           \<and> py_lower p \<in> set (map ascii [''svb'', ''rig'', ''per''])
           \<and> g \<noteq> [] \<and> (\<forall>c \<in> set g. is_alnum_ascii c)
           \<and> (case post of [] \<Rightarrow> True | c # cs \<Rightarrow> \<not> is_word c)"
      by auto
    then show ?thesis by blast
  next
    case False
    with Cons.prems have "svb_search (is_word c) cs = Some g"
      by (auto split: if_splits option.splits)
    from Cons.IH [OF this] obtain pre p post where
      "cs = pre @ p @ 95 # g @ post \<and> length p = 3
           \<and> py_lower p \<in> set (map ascii [''svb'', ''rig'', ''per''])
           \<and> g \<noteq> [] \<and> (\<forall>c \<in> set g. is_alnum_ascii c)
           \<and> (case post of [] \<Rightarrow> True | c # cs \<Rightarrow> \<not> is_word c)"
      by blast
    then have "c # cs = (c # pre) @ p @ 95 # g @ post \<and> length p = 3
           \<and> py_lower p \<in> set (map ascii [''svb'', ''rig'', ''per''])
           \<and> g \<noteq> [] \<and> (\<forall>c \<in> set g. is_alnum_ascii c)
           \<and> (case post of [] \<Rightarrow> True | c # cs \<Rightarrow> \<not> is_word c)"
      by simp
    then show ?thesis by blast
  qed
qed

text \<open>A text that is a prefix, an underscore and a token is found whole.\<close>

lemma svb_search_shaped:
  assumes "length p = 3" "py_lower p \<in> set (map ascii [''svb'', ''rig'', ''per''])"
    "tok \<noteq> []" "\<forall>c \<in> set tok. is_alnum_ascii c"
  shows "svb_search False (p @ 95 # tok) = Some tok"
proof -
  from assms(1) obtain a b c where p: "p = [a, b, c]"
    by (cases p; cases "tl p"; cases "tl (tl p)") auto
  from assms(4) have t: "takeWhile is_alnum_ascii tok = tok" "dropWhile is_alnum_ascii tok = []"
    by simp_all
  have "svb_match_here (a # b # c # 95 # tok) = Some tok"
    using assms(2,3) unfolding svb_match_here_def p
    by (simp add: t Let_def del: set_map list.map)
  then show ?thesis by (simp add: p)
qed

lemma upper_alnum:
  assumes "\<forall>c \<in> set g. is_alnum_ascii c"
  shows "\<forall>c \<in> set (py_upper g). is_alnum_ascii c" "py_upper (py_upper g) = py_upper g"
    "g \<noteq> [] \<Longrightarrow> py_upper g \<noteq> []"
proof -
  have one: "is_alnum_ascii c \<Longrightarrow> \<exists>d. upper_cp c = [d] \<and> is_alnum_ascii d \<and> upper_cp d = [d]" for c
    by (auto simp: is_alnum_ascii_def upper_cp_def)
  from assms show "\<forall>c \<in> set (py_upper g). is_alnum_ascii c"
  proof (induction g)
    case Nil
    show ?case by (simp add: py_upper_def)
  next
    case (Cons c cs)
    then obtain d where "upper_cp c = [d] \<and> is_alnum_ascii d" using one [of c] by auto
    with Cons show ?case by (simp add: py_upper_def)
  qed
  from assms show "py_upper (py_upper g) = py_upper g"
  proof (induction g)
    case Nil
    show ?case by (simp add: py_upper_def)
  next
    case (Cons c cs)
    then obtain d where "upper_cp c = [d] \<and> upper_cp d = [d]" using one [of c] by auto
    with Cons show ?case by (simp add: py_upper_def)
  qed
  show "g \<noteq> [] \<Longrightarrow> py_upper g \<noteq> []"
  proof (cases g)
    case Nil
    assume "g \<noteq> []"
    with Nil show ?thesis by simp
  next
    case (Cons c cs)
    with assms obtain d where "upper_cp c = [d]" using one [of c] by auto
    with Cons show ?thesis by (simp add: py_upper_def)
  qed
qed

lemma std_svb_id_shaped:
  assumes "length p = 3" "py_lower p \<in> set (map ascii [''svb'', ''rig'', ''per''])"
    "tok \<noteq> []" "\<forall>c \<in> set tok. is_alnum_ascii c"
  shows "std_svb_id (p @ ascii ''_'' @ tok) = ascii ''SVB_'' @ py_upper tok"
    "extract_svb_id (p @ ascii ''_'' @ tok) = ascii ''SVB_'' @ py_upper tok"
  using svb_search_shaped [OF assms]
  by (simp_all add: std_svb_id_def extract_svb_id_def underscore)

text \<open>An extracted token is in normal form already.\<close>

lemma extract_svb_id_normal:
  assumes "extract_svb_id t \<noteq> []"
  shows "std_svb_id (extract_svb_id t) = extract_svb_id t"
proof -
  from assms obtain g where g: "svb_search False t = Some g"
    and e: "extract_svb_id t = ascii ''SVB_'' @ py_upper g"
    by (auto simp: extract_svb_id_def split: if_splits option.splits)
  from svb_search_Some [OF g] have a: "g \<noteq> []" "\<forall>c \<in> set g. is_alnum_ascii c"
    by auto
  have "svb_search False (ascii ''SVB'' @ 95 # py_upper g) = Some (py_upper g)"
    by (intro svb_search_shaped svb_prefix upper_alnum a)
  then have "std_svb_id (ascii ''SVB_'' @ py_upper g) = ascii ''SVB_'' @ py_upper (py_upper g)"
    by (simp add: std_svb_id_def svb_prefix(1))
  with a show ?thesis by (simp add: e upper_alnum(2))
qed

text \<open>
  The ids built from the name are kept as they are: a cleaned name holds only letters,
  digits and underscores, so that after \<open>SVB_RIG_\<close>, \<open>SVB_PER_\<close> or \<open>SVB_\<close> no
  group of the pattern ends where a word ends, unless the cleaned name is itself a
  single token after \<open>SVB_\<close>.
\<close>

lemma svb_search_all_word: "\<forall>c \<in> set s. is_word c \<Longrightarrow> svb_search True s = None"
  by (induction s) auto

lemma squeeze_underscores_set: "set (squeeze_underscores s) \<subseteq> set s"
proof (induction s rule: squeeze_underscores.induct)
  case 1
  show ?case by simp
next
  case (2 c cs)
  have "set (dropWhile (\<lambda>d. d = 95) cs) \<subseteq> set cs" by (rule set_dropWhileD [THEN subsetI])
  with 2 show ?case by auto
qed

lemma clean_name_word: "c \<in> set (clean_name nome) \<Longrightarrow> is_word c"
proof -
  assume "c \<in> set (clean_name nome)"
  then have "c \<in> set (squeeze_underscores (map clean_name_char (py_strip (py_upper nome))))"
    unfolding clean_name_def strip_underscores_def
    by (auto dest!: set_dropWhileD)
  then have "c \<in> set (map clean_name_char (py_strip (py_upper nome)))"
    using squeeze_underscores_set by blast
  then show "is_word c"
    by (auto simp: clean_name_char_def is_word_def is_alnum_ascii_def py_isalnum_def)
qed

lemma std_svb_id_rig_name:
  "std_svb_id (ascii ''SVB_RIG_'' @ clean_name nome) = ascii ''SVB_RIG_'' @ clean_name nome"
proof -
  have r: "ascii ''SVB_RIG_'' = [83, 86, 66, 95, 82, 73, 71, 95]" by code_simp
  have w: "\<forall>c \<in> set (86 # 66 # 95 # 82 # 73 # 71 # 95 # clean_name nome). is_word c"
    by (auto dest: clean_name_word simp: is_word_def py_isalnum_def)
  have m: "svb_match_here (83 # 86 # 66 # 95 # 82 # 73 # 71 # 95 # clean_name nome) = None"
    by (simp add: svb_match_here_def Let_def is_alnum_ascii_def is_word_def)
  have "svb_search False (83 # 86 # 66 # 95 # 82 # 73 # 71 # 95 # clean_name nome)
      = svb_search True (86 # 66 # 95 # 82 # 73 # 71 # 95 # clean_name nome)"
    by (simp only: svb_search.simps m option.case) (simp add: is_word_def py_isalnum_def)
  also have "\<dots> = None" using w by (rule svb_search_all_word)
  finally show ?thesis by (simp add: std_svb_id_def r)
qed

text \<open>The first text with a token gives the first extracted candidate.\<close>

lemma find_first_extracted:
  "find (\<lambda>t. f t \<noteq> []) ts = Some t \<Longrightarrow> \<exists>rest. filter (\<lambda>e. e \<noteq> []) (map f ts) = f t # rest"
  by (induction ts) (auto split: if_splits)

lemma find_none_extracted:
  "\<forall>t \<in> set ts. f t = [] \<Longrightarrow> filter (\<lambda>e. e \<noteq> []) (map f ts) = []"
  by (induction ts) auto

lemma blank_candidates:
  "\<not> nonblank pid \<Longrightarrow>
   candidate_ids pid nome link_cells sync_cells comment_cells
     = filter (\<lambda>e. e \<noteq> []) (map extract_svb_id (search_texts link_cells sync_cells comment_cells))
       @ name_candidates nome"
  by (simp add: candidate_ids_def)

lemma best_id_first:
  "best_id pid nome link_cells sync_cells comment_cells =
     (case filter (\<lambda>x. x \<noteq> [])
             (map std_svb_id (candidate_ids pid nome link_cells sync_cells comment_cells)) of
        [] \<Rightarrow> pid
      | b # bs \<Rightarrow> b)"
  unfolding best_id_def by (rule normalize_candidates_first)

lemma best_id_token:
  assumes "\<not> nonblank pid"
    and "find (\<lambda>t. extract_svb_id t \<noteq> []) (search_texts link_cells sync_cells comment_cells) = Some t"
  shows "best_id pid nome link_cells sync_cells comment_cells = extract_svb_id t"
proof -
  from assms(2) have ne: "extract_svb_id t \<noteq> []"
    by (auto dest: find_Some_iff [THEN iffD1])
  from find_first_extracted [OF assms(2)] obtain rest where
    "filter (\<lambda>e. e \<noteq> []) (map extract_svb_id (search_texts link_cells sync_cells comment_cells))
       = extract_svb_id t # rest"
    by blast
  with assms(1) have "candidate_ids pid nome link_cells sync_cells comment_cells
      = extract_svb_id t # rest @ name_candidates nome"
    by (simp add: blank_candidates)
  with ne show ?thesis
    by (simp add: best_id_first extract_svb_id_normal)
qed

lemma best_id_name:
  assumes "\<not> nonblank pid"
    and "\<forall>t \<in> set (search_texts link_cells sync_cells comment_cells). extract_svb_id t = []"
  shows "best_id pid nome link_cells sync_cells comment_cells
     = (if nome \<noteq> [] \<and> clean_name nome \<noteq> [] then ascii ''SVB_RIG_'' @ clean_name nome else pid)"
proof -
  have r: "ascii ''SVB_RIG_'' \<noteq> []" by code_simp
  from assms have c: "candidate_ids pid nome link_cells sync_cells comment_cells
      = name_candidates nome"
    by (simp add: blank_candidates find_none_extracted)
  show ?thesis
    using r by (simp add: best_id_first c name_candidates_def Let_def std_svb_id_rig_name)
qed

text \<open>
  C2, as amended. The best id of a group is the first candidate whose normal form is not
  empty, and the original id when there is none. The candidates are, in this order: the
  original id when it is not blank; the tokens extracted from the non-blank link cells,
  from the non-blank sync cells and from the first non-blank comment; and the three ids
  built from the cleaned name, \<open>SVB_RIG_NAME\<close>, \<open>SVB_PER_NAME\<close> and \<open>SVB_NAME\<close>.
  The normal form of a candidate in which the pattern finds a token is \<open>SVB_TOKEN\<close>
  in upper case: the token is a non-empty run of ASCII letters and digits that follows
  \<open>SVB_\<close>, \<open>RIG_\<close> or \<open>PER_\<close> in any letter case, and a text that is such a prefix
  and a token becomes \<open>SVB_TOKEN\<close>; a candidate in which the pattern finds nothing is
  kept as it is. So an original id that is not blank is always the result, in its normal
  form, and verbatim when it has not the shape of an id. When the original id is blank,
  the result is the token of the first text that holds one, as \<open>SVB_TOKEN\<close>; without a
  token it is the id \<open>SVB_RIG_NAME\<close> of the cleaned name; and without a cleaned name
  it is the original id.
\<close>

theorem best_id_first_candidate:
  "best_id pid nome link_cells sync_cells comment_cells =
     (case filter (\<lambda>x. x \<noteq> [])
             (map std_svb_id (candidate_ids pid nome link_cells sync_cells comment_cells)) of
        [] \<Rightarrow> pid
      | b # bs \<Rightarrow> b)
   \<and> (nonblank pid \<longrightarrow>
        best_id pid nome link_cells sync_cells comment_cells = std_svb_id pid)
   \<and> (svb_search False pid = None \<longrightarrow> std_svb_id pid = pid)
   \<and> best_id [] (ascii ''Muriel'')
        [ascii ''https://drive.example/file/SVB_MURIEL.png''] [] [] = ascii ''SVB_MURIEL''
   \<and> candidate_ids pid nome link_cells sync_cells comment_cells
       = (if nonblank pid then [pid] else [])
         @ filter (\<lambda>e. e \<noteq> []) (map extract_svb_id
             (filter nonblank link_cells @ filter nonblank sync_cells
              @ [case filter nonblank comment_cells of [] \<Rightarrow> [] | c # cs \<Rightarrow> c]))
         @ (if nome \<noteq> [] \<and> clean_name nome \<noteq> []
            then [ascii ''SVB_RIG_'' @ clean_name nome, ascii ''SVB_PER_'' @ clean_name nome,
                  ascii ''SVB_'' @ clean_name nome]
            else [])
   \<and> (svb_search False s = Some g \<longrightarrow>
        std_svb_id s = ascii ''SVB_'' @ py_upper g
        \<and> (\<exists>pre p post. s = pre @ p @ ascii ''_'' @ g @ post \<and> length p = 3
              \<and> py_lower p \<in> set (map ascii [''svb'', ''rig'', ''per''])
              \<and> g \<noteq> [] \<and> (\<forall>c \<in> set g. is_alnum_ascii c)
              \<and> (case post of [] \<Rightarrow> True | c # cs \<Rightarrow> \<not> is_word c)))
   \<and> (length p = 3 \<and> py_lower p \<in> set (map ascii [''svb'', ''rig'', ''per''])
        \<and> tok \<noteq> [] \<and> (\<forall>c \<in> set tok. is_alnum_ascii c) \<longrightarrow>
        std_svb_id (p @ ascii ''_'' @ tok) = ascii ''SVB_'' @ py_upper tok
        \<and> extract_svb_id (p @ ascii ''_'' @ tok) = ascii ''SVB_'' @ py_upper tok)
   \<and> (\<not> nonblank pid
        \<and> find (\<lambda>t. extract_svb_id t \<noteq> [])
            (filter nonblank link_cells @ filter nonblank sync_cells
             @ [case filter nonblank comment_cells of [] \<Rightarrow> [] | c # cs \<Rightarrow> c]) = Some t \<longrightarrow>
        best_id pid nome link_cells sync_cells comment_cells = extract_svb_id t)
   \<and> (\<not> nonblank pid
        \<and> (\<forall>t \<in> set (filter nonblank link_cells @ filter nonblank sync_cells
             @ [case filter nonblank comment_cells of [] \<Rightarrow> [] | c # cs \<Rightarrow> c]).
              extract_svb_id t = []) \<longrightarrow>
        best_id pid nome link_cells sync_cells comment_cells
          = (if nome \<noteq> [] \<and> clean_name nome \<noteq> [] then ascii ''SVB_RIG_'' @ clean_name nome
             else pid))
   \<and> std_svb_id (ascii ''rig_muriel'') = ascii ''SVB_MURIEL''
   \<and> best_id (ascii '' '') (ascii ''Muriel'') [ascii '' '']
        [ascii ''sem id'', ascii ''https://sync.example/per_muriel2/view''] [] = ascii ''SVB_MURIEL2''
   \<and> best_id [] (ascii ''Muriel'') [] []
        [ascii '' '', ascii ''ver RIG_Muriel, depois SVB_OUTRA'', ascii ''SVB_TERCEIRA'']
        = ascii ''SVB_MURIEL''
   \<and> best_id [] (ascii ''Tia Rebimboca'') [ascii ''sem id''] [] [] = ascii ''SVB_RIG_TIA_REBIMBOCA''
   \<and> best_id (ascii '' '') [] [] [] [] = ascii '' ''"
proof (intro conjI impI)
  show "best_id pid nome link_cells sync_cells comment_cells =
     (case filter (\<lambda>x. x \<noteq> [])
             (map std_svb_id (candidate_ids pid nome link_cells sync_cells comment_cells)) of
        [] \<Rightarrow> pid
      | b # bs \<Rightarrow> b)"
    by (rule best_id_first)
next
  assume "nonblank pid"
  then show "best_id pid nome link_cells sync_cells comment_cells = std_svb_id pid"
    by (rule best_id_original_wins)
next
  assume "svb_search False pid = None"
  then show "std_svb_id pid = pid" by (simp add: std_svb_id_def)
next
  show "candidate_ids pid nome link_cells sync_cells comment_cells
       = (if nonblank pid then [pid] else [])
         @ filter (\<lambda>e. e \<noteq> []) (map extract_svb_id
             (filter nonblank link_cells @ filter nonblank sync_cells
              @ [case filter nonblank comment_cells of [] \<Rightarrow> [] | c # cs \<Rightarrow> c]))
         @ (if nome \<noteq> [] \<and> clean_name nome \<noteq> []
            then [ascii ''SVB_RIG_'' @ clean_name nome, ascii ''SVB_PER_'' @ clean_name nome,
                  ascii ''SVB_'' @ clean_name nome]
            else [])"
    by (simp add: candidate_ids_def search_texts_def name_candidates_def Let_def)
next
  assume g: "svb_search False s = Some g"
  then show "std_svb_id s = ascii ''SVB_'' @ py_upper g"
    by (simp add: std_svb_id_def)
  from svb_search_Some [OF g]
  show "\<exists>pre p post. s = pre @ p @ ascii ''_'' @ g @ post \<and> length p = 3
              \<and> py_lower p \<in> set (map ascii [''svb'', ''rig'', ''per''])
              \<and> g \<noteq> [] \<and> (\<forall>c \<in> set g. is_alnum_ascii c)
              \<and> (case post of [] \<Rightarrow> True | c # cs \<Rightarrow> \<not> is_word c)"
    by (simp only: underscore append_Cons append_Nil)
next
  assume a: "length p = 3 \<and> py_lower p \<in> set (map ascii [''svb'', ''rig'', ''per''])
        \<and> tok \<noteq> [] \<and> (\<forall>c \<in> set tok. is_alnum_ascii c)"
  then show "std_svb_id (p @ ascii ''_'' @ tok) = ascii ''SVB_'' @ py_upper tok"
    by (intro std_svb_id_shaped) simp_all
  from a show "extract_svb_id (p @ ascii ''_'' @ tok) = ascii ''SVB_'' @ py_upper tok"
    by (intro std_svb_id_shaped) simp_all
next
  assume "\<not> nonblank pid
        \<and> find (\<lambda>t. extract_svb_id t \<noteq> [])
            (filter nonblank link_cells @ filter nonblank sync_cells
             @ [case filter nonblank comment_cells of [] \<Rightarrow> [] | c # cs \<Rightarrow> c]) = Some t"
  then show "best_id pid nome link_cells sync_cells comment_cells = extract_svb_id t"
    by (intro best_id_token) (simp_all add: search_texts_def Let_def)
next
  assume "\<not> nonblank pid
        \<and> (\<forall>t \<in> set (filter nonblank link_cells @ filter nonblank sync_cells
             @ [case filter nonblank comment_cells of [] \<Rightarrow> [] | c # cs \<Rightarrow> c]).
              extract_svb_id t = [])"
  then show "best_id pid nome link_cells sync_cells comment_cells
          = (if nome \<noteq> [] \<and> clean_name nome \<noteq> [] then ascii ''SVB_RIG_'' @ clean_name nome
             else pid)"
    by (intro best_id_name) (simp_all add: search_texts_def Let_def)
qed code_simp+

text \<open>
  The theorem at the group with the id \<open>MURIEL\<close>, which is not blank and has not the
  shape of an id: the best id is \<open>MURIEL\<close>, whatever the link holds. The id
  \<open>rig_muriel\<close> has the shape and becomes \<open>SVB_MURIEL\<close>. With a blank id the token
  of the sync cell is taken when the link has none, and the name when no text has one.
\<close>

theorem best_id_first_candidate_witness:
  "best_id (ascii ''MURIEL'') (ascii ''Muriel'')
     [ascii ''https://drive.example/file/SVB_MURIEL.png''] [] [] = ascii ''MURIEL''
   \<and> best_id (ascii ''rig_muriel'') (ascii ''Muriel'') [] [] [] = ascii ''SVB_MURIEL''
   \<and> best_id [] (ascii ''Muriel'') [ascii ''sem id'']
        [ascii ''https://sync.example/per_muriel2/view''] [ascii ''SVB_OUTRA'']
       = ascii ''SVB_MURIEL2''
   \<and> best_id [] (ascii ''Tia Rebimboca'') [ascii ''sem id''] [] [] = ascii ''SVB_RIG_TIA_REBIMBOCA''
   \<and> best_id [] [] [ascii ''sem id''] [] [] = []
   \<and> std_svb_id (ascii ''ver RIG_Muriel, depois SVB_OUTRA'') = ascii ''SVB_MURIEL''"
proof -
  note t = best_id_first_candidate [of "ascii ''MURIEL''" "ascii ''Muriel''"
      "[ascii ''https://drive.example/file/SVB_MURIEL.png'']" "[]" "[]"]
  have a: "best_id (ascii ''MURIEL'') (ascii ''Muriel'')
     [ascii ''https://drive.example/file/SVB_MURIEL.png''] [] [] = std_svb_id (ascii ''MURIEL'')"
    using t [THEN conjunct2, THEN conjunct1] unshaped_example(2) by (rule mp)
  have b: "std_svb_id (ascii ''MURIEL'') = ascii ''MURIEL''"
    using t [THEN conjunct2, THEN conjunct2, THEN conjunct1] unshaped_example(1) by (rule mp)
  have c1: "best_id (ascii ''MURIEL'') (ascii ''Muriel'')
     [ascii ''https://drive.example/file/SVB_MURIEL.png''] [] [] = ascii ''MURIEL''"
    using a b by simp
  note u = best_id_first_candidate [where pid = "ascii ''rig_muriel''" and nome = "ascii ''Muriel''"
      and link_cells = "[]" and sync_cells = "[]" and comment_cells = "[]"
      and p = "ascii ''rig''" and tok = "ascii ''muriel''"]
  have hu: "nonblank (ascii ''rig_muriel'')" by code_simp
  have hs: "length (ascii ''rig'') = 3
        \<and> py_lower (ascii ''rig'') \<in> set (map ascii [''svb'', ''rig'', ''per''])
        \<and> ascii ''muriel'' \<noteq> [] \<and> (\<forall>c \<in> set (ascii ''muriel''). is_alnum_ascii c)"
    by code_simp
  have eq: "ascii ''rig'' @ ascii ''_'' @ ascii ''muriel'' = ascii ''rig_muriel''"
       "ascii ''SVB_'' @ py_upper (ascii ''muriel'') = ascii ''SVB_MURIEL''"
    by code_simp+
  have d1: "best_id (ascii ''rig_muriel'') (ascii ''Muriel'') [] [] []
      = std_svb_id (ascii ''rig_muriel'')"
    using u [THEN conjunct2, THEN conjunct1] hu by (rule mp)
  have d2: "std_svb_id (ascii ''rig'' @ ascii ''_'' @ ascii ''muriel'')
      = ascii ''SVB_'' @ py_upper (ascii ''muriel'')"
    using u [THEN conjunct2, THEN conjunct2, THEN conjunct2, THEN conjunct2, THEN conjunct2,
        THEN conjunct2, THEN conjunct1, rule_format, OF hs]
    by (rule conjunct1)
  have c2: "best_id (ascii ''rig_muriel'') (ascii ''Muriel'') [] [] [] = ascii ''SVB_MURIEL''"
    using d1 d2 by (simp only: eq)
  let ?ls = "[ascii ''sem id'']"
  let ?ss = "[ascii ''https://sync.example/per_muriel2/view'']"
  let ?cs = "[ascii ''SVB_OUTRA'']"
  have hv: "\<not> nonblank []
        \<and> find (\<lambda>t. extract_svb_id t \<noteq> [])
            (filter nonblank ?ls @ filter nonblank ?ss
             @ [case filter nonblank ?cs of [] \<Rightarrow> [] | c # cs \<Rightarrow> c])
          = Some (ascii ''https://sync.example/per_muriel2/view'')"
    by code_simp
  have ev: "extract_svb_id (ascii ''https://sync.example/per_muriel2/view'') = ascii ''SVB_MURIEL2''"
    by code_simp
  have "best_id [] (ascii ''Muriel'') ?ls ?ss ?cs
      = extract_svb_id (ascii ''https://sync.example/per_muriel2/view'')"
    using best_id_first_candidate [where pid = "[]" and nome = "ascii ''Muriel''"
        and link_cells = ?ls and sync_cells = ?ss and comment_cells = ?cs
        and t = "ascii ''https://sync.example/per_muriel2/view''",
        THEN conjunct2, THEN conjunct2, THEN conjunct2, THEN conjunct2, THEN conjunct2,
        THEN conjunct2, THEN conjunct2, THEN conjunct1] hv
    by (rule mp)
  then have c3: "best_id [] (ascii ''Muriel'') ?ls ?ss ?cs = ascii ''SVB_MURIEL2''"
    by (simp only: ev)
  have hw: "\<not> nonblank []
        \<and> (\<forall>t \<in> set (filter nonblank ?ls @ filter nonblank []
             @ [case filter nonblank [] of [] \<Rightarrow> [] | c # cs \<Rightarrow> c]).
              extract_svb_id t = [])"
    by code_simp
  have en: "(if ascii ''Tia Rebimboca'' \<noteq> [] \<and> clean_name (ascii ''Tia Rebimboca'') \<noteq> []
             then ascii ''SVB_RIG_'' @ clean_name (ascii ''Tia Rebimboca'') else [])
            = ascii ''SVB_RIG_TIA_REBIMBOCA''"
    by code_simp
  have "best_id [] (ascii ''Tia Rebimboca'') ?ls [] []
      = (if ascii ''Tia Rebimboca'' \<noteq> [] \<and> clean_name (ascii ''Tia Rebimboca'') \<noteq> []
         then ascii ''SVB_RIG_'' @ clean_name (ascii ''Tia Rebimboca'') else [])"
    using best_id_first_candidate [where pid = "[]" and nome = "ascii ''Tia Rebimboca''"
        and link_cells = ?ls and sync_cells = "[]" and comment_cells = "[]",
        THEN conjunct2, THEN conjunct2, THEN conjunct2, THEN conjunct2, THEN conjunct2,
        THEN conjunct2, THEN conjunct2, THEN conjunct2, THEN conjunct1] hw
    by (rule mp)
  then have c4: "best_id [] (ascii ''Tia Rebimboca'') ?ls [] [] = ascii ''SVB_RIG_TIA_REBIMBOCA''"
    by (simp only: en)
  have "best_id [] [] ?ls [] []
      = (if [] \<noteq> ([]::ustr) \<and> clean_name [] \<noteq> [] then ascii ''SVB_RIG_'' @ clean_name [] else [])"
    using best_id_first_candidate [where pid = "[]" and nome = "[]"
        and link_cells = ?ls and sync_cells = "[]" and comment_cells = "[]",
        THEN conjunct2, THEN conjunct2, THEN conjunct2, THEN conjunct2, THEN conjunct2,
        THEN conjunct2, THEN conjunct2, THEN conjunct2, THEN conjunct1] hw
    by (rule mp)
  then have c5: "best_id [] [] ?ls [] [] = []"
    by simp
  have hg: "svb_search False (ascii ''ver RIG_Muriel, depois SVB_OUTRA'') = Some (ascii ''Muriel'')"
    by code_simp
  have eg: "ascii ''SVB_'' @ py_upper (ascii ''Muriel'') = ascii ''SVB_MURIEL''"
    by code_simp
  have "std_svb_id (ascii ''ver RIG_Muriel, depois SVB_OUTRA'')
      = ascii ''SVB_'' @ py_upper (ascii ''Muriel'')"
    using best_id_first_candidate [where s = "ascii ''ver RIG_Muriel, depois SVB_OUTRA''"
        and g = "ascii ''Muriel''",
        THEN conjunct2, THEN conjunct2, THEN conjunct2, THEN conjunct2, THEN conjunct2,
        THEN conjunct1, rule_format, OF hg]
    by (rule conjunct1)
  then have c6: "std_svb_id (ascii ''ver RIG_Muriel, depois SVB_OUTRA'') = ascii ''SVB_MURIEL''"
    by (simp only: eg)
  from c1 c2 c3 c4 c5 c6 show ?thesis by (intro conjI)
qed

text \<open>
  The claim as stated fails for that group: the pattern finds nothing in the id
  \<open>MURIEL\<close>, the link holds the token \<open>SVB_MURIEL\<close>, and the best id is not the
  token.
\<close>

theorem best_id_link_token_counterexample:
  "svb_search False (ascii ''MURIEL'') = None
   \<and> extract_svb_id (ascii ''https://drive.example/file/SVB_MURIEL.png'') = ascii ''SVB_MURIEL''
   \<and> best_id (ascii ''MURIEL'') (ascii ''Muriel'')
        [ascii ''https://drive.example/file/SVB_MURIEL.png''] [] [] \<noteq> ascii ''SVB_MURIEL''"
  by code_simp
end
